theory Spec2Isabelle
  imports Main "HOL-Library.Stream"
begin

section \<open>Errors and JavaScript values\<close>

text \<open>
  Every \<^verbatim>\<open>throw\<close> of the sources is a value of \<open>error\<close>. \<open>PSIError\<close> carries the
  object the error points at (a symbol in the scope model, a source span in the parser) and
  its message. \<open>TypeError\<close> is what the JavaScript runtime raises when a property is read
  from \<^verbatim>\<open>null\<close> or \<^verbatim>\<open>undefined\<close>; it carries the name of the property that was read.
  \<open>Error\<close> is the plain \<^verbatim>\<open>new Error(message)\<close>.
\<close>

datatype 'd error = PSIError 'd string | TypeError string | Error string

text \<open>
  What a lookup hands back: \<^verbatim>\<open>undefined\<close>, \<^verbatim>\<open>null\<close>, or an object. Runtime values and
  symbols are class instances, so an object is always truthy.
\<close>

datatype 'v jsValue = Undefined | Null | Object 'v

section \<open>The symbol scope (SymbolScope.ts)\<close>

subsection \<open>Case-insensitive maps\<close>

text \<open>
  \<^verbatim>\<open>CaseInsensitiveMap\<close> comes from the package \<^verbatim>\<open>case-insensitive-map\<close>, which is not part
  of the sources: a map that brings every string key to a canonical case when it stores and
  when it looks up. The canonical case is lower case, taken here over the ASCII letters.
\<close>

definition lowerChar :: "char \<Rightarrow> char" where
  "lowerChar c =
     (case map_of (zip ''ABCDEFGHIJKLMNOPQRSTUVWXYZ'' ''abcdefghijklmnopqrstuvwxyz'') c of
        Some l \<Rightarrow> l
      | None \<Rightarrow> c)"

definition toLowerCase :: "string \<Rightarrow> string" where
  "toLowerCase s = map lowerChar s"

type_synonym 'a CaseInsensitiveMap = "string \<rightharpoonup> 'a"

definition cimGet :: "'a CaseInsensitiveMap \<Rightarrow> string \<Rightarrow> 'a option" where
  "cimGet m key = m (toLowerCase key)"

definition cimHas :: "'a CaseInsensitiveMap \<Rightarrow> string \<Rightarrow> bool" where
  "cimHas m key = (m (toLowerCase key) \<noteq> None)"

definition cimSet :: "'a CaseInsensitiveMap \<Rightarrow> string \<Rightarrow> 'a \<Rightarrow> 'a CaseInsensitiveMap" where
  "cimSet m key v = m(toLowerCase key \<mapsto> v)"

subsection \<open>Symbols and scopes\<close>

text \<open>
  A symbol is a \<^verbatim>\<open>VariableSymbol\<close> with its declared type, or a \<^verbatim>\<open>ProcedureSymbol\<close>. Of the
  declared type the scope reads only the static \<^verbatim>\<open>defaultValue\<close>, which a type may lack.
\<close>

record 'v PSIDataTypeClass =
  defaultValue :: "'v option"

datatype 'v PSISymbol =
    VariableSymbol string "'v PSIDataTypeClass"
  | ProcedureSymbol string

fun symbolName :: "'v PSISymbol \<Rightarrow> string" where
  "symbolName (VariableSymbol n t) = n"
| "symbolName (ProcedureSymbol n) = n"

text \<open>
  The fields of one scope object: the declaration table \<^verbatim>\<open>scope\<close> and the value table
  \<^verbatim>\<open>value\<close>. (The \<^verbatim>\<open>children\<close> map is read by none of the operations below.)
\<close>

record 'v SymbolScope =
  scopeName :: string
  scopeTable :: "'v PSISymbol CaseInsensitiveMap"
  valueTable :: "'v CaseInsensitiveMap"

text \<open>
  A scope reaches its ancestors through the read-only \<^verbatim>\<open>parent\<close> link, so a receiver is
  modelled together with them, as the chain \<open>this # parent\<close>: the head is the receiver, the
  tail is the chain of its parent, and the empty tail is the \<^verbatim>\<open>null\<close> parent of the global
  scope. A scope on the chain is identified by its distance from the receiver (0 is the
  receiver itself); an operation that mutates a scope returns the updated chain.
\<close>

type_synonym 'v scopeChain = "'v SymbolScope list"

text \<open>
  \<^verbatim>\<open>result && type ? result instanceof type : true\<close> parses as
  \<^verbatim>\<open>(result && type) ? (result instanceof type) : true\<close>: the conditional operator binds
  looser than \<^verbatim>\<open>&&\<close>. The optional \<^verbatim>\<open>type\<close> is a class, modelled by its \<^verbatim>\<open>instanceof\<close> test.
\<close>

fun resolveValue :: "'v scopeChain \<Rightarrow> string \<Rightarrow> ('v \<Rightarrow> bool) option \<Rightarrow> 'v jsValue" where
  "resolveValue (this # parent) name type =
     (let result = cimGet (valueTable this) name in
      if (case (result, type) of
            (Some r, Some instanceOfType) \<Rightarrow> instanceOfType r
          | _ \<Rightarrow> True)
      then (case result of None \<Rightarrow> Undefined | Some r \<Rightarrow> Object r)
      else if parent \<noteq> [] then resolveValue parent name type
      else Null)"

definition resolveValueThisScopeOnly :: "'v SymbolScope \<Rightarrow> string \<Rightarrow> 'v jsValue" where
  "resolveValueThisScopeOnly this name =
     (case cimGet (valueTable this) name of None \<Rightarrow> Null | Some r \<Rightarrow> Object r)"

text \<open>
  \<^verbatim>\<open>resolve\<close>, the lookup of the declaration table, with the parentheses that
  \<^verbatim>\<open>resolveValue\<close> lacks: \<^verbatim>\<open>result && (symbolType ? result instanceof symbolType : true)\<close>.
\<close>

fun resolve :: "'v scopeChain \<Rightarrow> string \<Rightarrow> ('v PSISymbol \<Rightarrow> bool) option \<Rightarrow> 'v PSISymbol jsValue" where
  "resolve (this # parent) name symbolType =
     (let result = cimGet (scopeTable this) name in
      if (case result of
            None \<Rightarrow> False
          | Some r \<Rightarrow> (case symbolType of Some instanceOfType \<Rightarrow> instanceOfType r | None \<Rightarrow> True))
      then (case result of None \<Rightarrow> Undefined | Some r \<Rightarrow> Object r)
      else if parent \<noteq> [] then resolve parent name symbolType
      else Null)"

text \<open>
  \<^verbatim>\<open>findScope\<close> returns the scope that declares the name, as its distance from the receiver,
  or \<open>None\<close> for \<^verbatim>\<open>null\<close>.
\<close>

fun findScope :: "'v scopeChain \<Rightarrow> string \<Rightarrow> nat option" where
  "findScope (this # parent) name =
     (let result = cimGet (scopeTable this) name in
      if result \<noteq> None then Some 0
      else if parent \<noteq> [] then map_option Suc (findScope parent name)
      else None)"

text \<open>
  \<^verbatim>\<open>this.findScope(name)!.value.set(name, value)\<close>: the \<^verbatim>\<open>!\<close> is erased by the compiler, so
  on \<^verbatim>\<open>null\<close> the read of \<^verbatim>\<open>.value\<close> raises a TypeError.
\<close>

definition changeValue :: "'v scopeChain \<Rightarrow> string \<Rightarrow> 'v \<Rightarrow> 'v PSISymbol error + 'v scopeChain" where
  "changeValue chain name v =
     (case findScope chain name of
        None \<Rightarrow> Inl (TypeError ''value'')
      | Some k \<Rightarrow>
          Inr (chain[k := (chain ! k)\<lparr>valueTable := cimSet (valueTable (chain ! k)) name v\<rparr>]))"

text \<open>
  \<^verbatim>\<open>changeArrayValue\<close> hands the mutation to the container found in the declaring scope.
  The container's own \<^verbatim>\<open>changeValue\<close> belongs to the runtime value types and is a parameter
  here: it returns the mutated container or the error it raises. The container is mutated in
  place, so the declaring scope's entry holds the mutated container afterwards.
\<close>

definition changeArrayValue ::
  "('v \<Rightarrow> 'v list \<Rightarrow> 'v \<Rightarrow> 'v PSISymbol error + 'v) \<Rightarrow>
   'v scopeChain \<Rightarrow> string \<Rightarrow> 'v list \<Rightarrow> 'v \<Rightarrow> 'v PSISymbol error + 'v scopeChain" where
  "changeArrayValue arrayChangeValue chain arrayName accessors v =
     (case findScope chain arrayName of
        None \<Rightarrow> Inl (TypeError ''resolveValueThisScopeOnly'')
      | Some k \<Rightarrow>
          (case resolveValueThisScopeOnly (chain ! k) arrayName of
             Object array \<Rightarrow>
               (case arrayChangeValue array accessors v of
                  Inl e \<Rightarrow> Inl e
                | Inr array' \<Rightarrow>
                    Inr (chain[k := (chain ! k)
                           \<lparr>valueTable := cimSet (valueTable (chain ! k)) arrayName array'\<rparr>]))
           | _ \<Rightarrow> Inl (TypeError ''changeValue'')))"

definition has :: "'v SymbolScope \<Rightarrow> 'v PSISymbol \<Rightarrow> bool" where
  "has this symbol = cimHas (scopeTable this) (symbolName symbol)"

text \<open>
  \<^verbatim>\<open>insert(symbol)\<close> touches the receiver only, so it works on one scope object. The value table is
  seeded when the symbol is a variable whose type has a (truthy) \<^verbatim>\<open>defaultValue\<close>.
\<close>

definition insertSymbol :: "'v SymbolScope \<Rightarrow> 'v PSISymbol \<Rightarrow> 'v PSISymbol error + 'v SymbolScope" where
  "insertSymbol this symbol =
     (if has this symbol
      then Inl (PSIError symbol (''Symbol '' @ symbolName symbol @ '' is being redeclared''))
      else
        (let this1 = this\<lparr>scopeTable := cimSet (scopeTable this) (symbolName symbol) symbol\<rparr> in
         case symbol of
           VariableSymbol n t \<Rightarrow>
             (case defaultValue t of
                Some d \<Rightarrow> Inr (this1\<lparr>valueTable := cimSet (valueTable this1) (symbolName symbol) d\<rparr>)
              | None \<Rightarrow> Inr this1)
         | ProcedureSymbol n \<Rightarrow> Inr this1))"

section \<open>The tree of AST nodes (AST.ts)\<close>

text \<open>
  Nodes are objects with identity, linked both ways, so they live in a store: a reference is
  an address, and the store gives each address the node's two fields, the \<^verbatim>\<open>_children\<close>
  array and the \<^verbatim>\<open>parent\<close> link.
\<close>

type_synonym ref = nat

record node =
  children :: "ref list"
  parent :: "ref option"

type_synonym store = "ref \<Rightarrow> node"

text \<open>\<^verbatim>\<open>Array.prototype.findIndex\<close>: the first index whose element passes the test, or -1.\<close>

fun findIndex :: "('a \<Rightarrow> bool) \<Rightarrow> 'a list \<Rightarrow> int" where
  "findIndex test [] = -1"
| "findIndex test (x # xs) =
     (if test x then 0 else (let i = findIndex test xs in if i = -1 then -1 else i + 1))"

text \<open>\<^verbatim>\<open>addChild(...children)\<close>: each child gets its parent link, then is pushed.\<close>

definition addChild1 :: "ref \<Rightarrow> ref \<Rightarrow> store \<Rightarrow> store" where
  "addChild1 this child h =
     (let h1 = h(child := (h child)\<lparr>parent := Some this\<rparr>) in
      h1(this := (h1 this)\<lparr>children := children (h1 this) @ [child]\<rparr>))"

definition addChild :: "store \<Rightarrow> ref \<Rightarrow> ref list \<Rightarrow> store" where
  "addChild h this cs = fold (addChild1 this) cs h"

text \<open>
  \<^verbatim>\<open>replace(node)\<close> returns the receiver; the model returns the store after the two
  assignments, in their order.
\<close>

definition replace :: "store \<Rightarrow> ref \<Rightarrow> ref \<Rightarrow> unit error + store" where
  "replace h this newNode =
     (case parent (h this) of
        None \<Rightarrow> Inl (Error ''Invalid tree configuration'')
      | Some p \<Rightarrow>
          (let index = findIndex (\<lambda>n. n = this) (children (h p)) in
           if index = -1 then Inl (Error ''Invalid tree configuration'')
           else
             (let h1 = h(p := (h p)\<lparr>children := (children (h p))[nat index := newNode]\<rparr>)
              in Inr (h1(this := (h1 this)\<lparr>parent := None\<rparr>)))))"

section \<open>The parser\<close>

subsection \<open>Tokens and the token source\<close>

text \<open>
  The token classes of the lexer, one constructor per class; \<^verbatim>\<open>instanceof\<close> and
  \<^verbatim>\<open>.constructor\<close> both become a test of the kind. \<open>tokenKindName\<close> is the class's
  \<^verbatim>\<open>name\<close>, which the default message of \<^verbatim>\<open>eat\<close> prints.
\<close>

datatype tokenKind =
    RepeatToken | UntilToken | WhileToken | DoToken | ForToken | ToToken | DownToToken
    | IfToken | ThenToken | ElseToken | VariableToken | ProcedureToken | SemiToken | IdToken
    | CommaToken | ColonToken | OpeningParenthesisToken | ClosingParenthesisToken
    | IntegerToken | RealToken | BooleanToken | CharToken | ProgramToken | DotToken
    | BeginToken | EndToken | AssignToken | PlusToken | MinusToken | OrToken
    | MultiplicationToken | IntegerDivisionToken | RealDivisionToken | ModToken | AndToken
    | EqualsToken | NotEqualsToken | GreaterThanToken | LessThanToken | GreaterEqualsToken
    | LessEqualsToken | IntegerConstToken | RealConstToken | TrueToken | FalseToken
    | CharConstantToken | NotToken | EofToken

fun tokenKindName :: "tokenKind \<Rightarrow> string" where
  "tokenKindName RepeatToken = ''RepeatToken''"
| "tokenKindName UntilToken = ''UntilToken''"
| "tokenKindName WhileToken = ''WhileToken''"
| "tokenKindName DoToken = ''DoToken''"
| "tokenKindName ForToken = ''ForToken''"
| "tokenKindName ToToken = ''ToToken''"
| "tokenKindName DownToToken = ''DownToToken''"
| "tokenKindName IfToken = ''IfToken''"
| "tokenKindName ThenToken = ''ThenToken''"
| "tokenKindName ElseToken = ''ElseToken''"
| "tokenKindName VariableToken = ''VariableToken''"
| "tokenKindName ProcedureToken = ''ProcedureToken''"
| "tokenKindName SemiToken = ''SemiToken''"
| "tokenKindName IdToken = ''IdToken''"
| "tokenKindName CommaToken = ''CommaToken''"
| "tokenKindName ColonToken = ''ColonToken''"
| "tokenKindName OpeningParenthesisToken = ''OpeningParenthesisToken''"
| "tokenKindName ClosingParenthesisToken = ''ClosingParenthesisToken''"
| "tokenKindName IntegerToken = ''IntegerToken''"
| "tokenKindName RealToken = ''RealToken''"
| "tokenKindName BooleanToken = ''BooleanToken''"
| "tokenKindName CharToken = ''CharToken''"
| "tokenKindName ProgramToken = ''ProgramToken''"
| "tokenKindName DotToken = ''DotToken''"
| "tokenKindName BeginToken = ''BeginToken''"
| "tokenKindName EndToken = ''EndToken''"
| "tokenKindName AssignToken = ''AssignToken''"
| "tokenKindName PlusToken = ''PlusToken''"
| "tokenKindName MinusToken = ''MinusToken''"
| "tokenKindName OrToken = ''OrToken''"
| "tokenKindName MultiplicationToken = ''MultiplicationToken''"
| "tokenKindName IntegerDivisionToken = ''IntegerDivisionToken''"
| "tokenKindName RealDivisionToken = ''RealDivisionToken''"
| "tokenKindName ModToken = ''ModToken''"
| "tokenKindName AndToken = ''AndToken''"
| "tokenKindName EqualsToken = ''EqualsToken''"
| "tokenKindName NotEqualsToken = ''NotEqualsToken''"
| "tokenKindName GreaterThanToken = ''GreaterThanToken''"
| "tokenKindName LessThanToken = ''LessThanToken''"
| "tokenKindName GreaterEqualsToken = ''GreaterEqualsToken''"
| "tokenKindName LessEqualsToken = ''LessEqualsToken''"
| "tokenKindName IntegerConstToken = ''IntegerConstToken''"
| "tokenKindName RealConstToken = ''RealConstToken''"
| "tokenKindName TrueToken = ''TrueToken''"
| "tokenKindName FalseToken = ''FalseToken''"
| "tokenKindName CharConstantToken = ''CharConstantToken''"
| "tokenKindName NotToken = ''NotToken''"
| "tokenKindName EofToken = ''EofToken''"

text \<open>
  A token has its span, \<^verbatim>\<open>start\<close> and \<^verbatim>\<open>end\<close> (a line and a column each), its class, and
  its literal \<^verbatim>\<open>value\<close>. The parser never reads the value, it only copies it into the node
  it builds, so the value is kept as the text of the literal.
\<close>

record location =
  linePosition :: int
  characterPosition :: int

record debugInfo =
  start :: location
  end' :: location

record token = debugInfo +
  kind :: tokenKind
  tokenValue :: string

text \<open>\<^verbatim>\<open>inheritPositionFrom(x)\<close> copies \<^verbatim>\<open>start\<close> and \<^verbatim>\<open>end\<close> of \<open>x\<close>.\<close>

definition positionOf :: "token \<Rightarrow> debugInfo" where
  "positionOf t = \<lparr>start = start t, end' = end' t\<rparr>"

text \<open>
  Modelled from the spec: the lexer, which the parser only reads through \<^verbatim>\<open>getNextToken\<close>
  (return and consume the next token) and \<^verbatim>\<open>peekNextToken\<close> (return it without consuming).
  It is the stream of the tokens not yet delivered.
\<close>

record Parser =
  currentToken :: token
  previousToken :: "token option"
  lexer :: "token stream"

definition peek :: "Parser \<Rightarrow> token" where
  "peek p = shd (lexer p)"

subsection \<open>Syntax trees\<close>

text \<open>
  What the parser builds, a constructor per node class, each with the position it inherits.
  \<^verbatim>\<open>IfAST\<close> has the \<^verbatim>\<open>next\<close> link of its else-chain, empty when the node is built.
  \<^verbatim>\<open>PSIBoolean\<close> is the direction flag of a for loop, a positioned value.
\<close>

datatype PSIBoolean = PSIBoolean debugInfo bool

datatype AST =
    CompoundAST debugInfo "AST list"
  | AssignmentAST debugInfo AST AST
  | IfAST debugInfo AST AST "AST option"
  | ForAST debugInfo AST PSIBoolean AST AST
  | WhileAST debugInfo AST AST
  | RepeatAST debugInfo AST "AST list"
  | CallAST debugInfo string "AST list"
  | VariableAST debugInfo string
  | EmptyAST debugInfo
  | PlusAST debugInfo AST AST
  | MinusAST debugInfo AST AST
  | OrAST debugInfo AST AST
  | MultiplicationAST debugInfo AST AST
  | IntegerDivisionAST debugInfo AST AST
  | RealDivisionAST debugInfo AST AST
  | ModAST debugInfo AST AST
  | AndAST debugInfo AST AST
  | EqualsAST debugInfo AST AST
  | NotEqualsAST debugInfo AST AST
  | GreaterThanAST debugInfo AST AST
  | LessThanAST debugInfo AST AST
  | GreaterEqualsAST debugInfo AST AST
  | LessEqualsAST debugInfo AST AST
  | UnaryPlusAST debugInfo AST
  | UnaryMinusAST debugInfo AST
  | NotAST debugInfo AST
  | IntegerConstantAST debugInfo string
  | RealConstantAST debugInfo string
  | CharConstantAST debugInfo string
  | TrueAST debugInfo
  | FalseAST debugInfo

text \<open>
  Modelled from the spec: \<^verbatim>\<open>IfAST.addNext\<close>, which links an alternative onto an \<^verbatim>\<open>If\<close>
  node as its "next". The parser calls it on \<^verbatim>\<open>If\<close> nodes only.
\<close>

fun addNext :: "AST \<Rightarrow> AST \<Rightarrow> AST" where
  "addNext (IfAST d condition statement next) alternative =
     IfAST d condition statement (Some alternative)"

subsection \<open>Results\<close>

text \<open>
  A production returns its node and the parser's state after it, or the error it threw.
  The productions call each other without bound, so each takes the depth of calls it may
  use; \<open>None\<close> says that the depth did not suffice.
\<close>

type_synonym 'a result = "(debugInfo error + 'a) option"

definition ok :: "'a \<Rightarrow> 'a result" where
  "ok x = Some (Inr x)"

definition throw :: "debugInfo error \<Rightarrow> 'a result" where
  "throw e = Some (Inl e)"

definition andThen :: "'a result \<Rightarrow> ('a \<Rightarrow> 'b result) \<Rightarrow> 'b result" where
  "andThen m f = (case m of None \<Rightarrow> None | Some (Inl e) \<Rightarrow> Some (Inl e) | Some (Inr x) \<Rightarrow> f x)"

subsection \<open>Consuming tokens\<close>

text \<open>
  The getter reads \<^verbatim>\<open>this.previousToken!.end\<close>: with no previous token that is a read
  from \<^verbatim>\<open>null\<close>.
\<close>

definition previousTokenEndLocationProvider :: "Parser \<Rightarrow> debugInfo error + debugInfo" where
  "previousTokenEndLocationProvider p =
     (case previousToken p of
        None \<Rightarrow> Inl (TypeError ''end'')
      | Some t \<Rightarrow>
          Inr \<lparr>start = \<lparr>linePosition = linePosition (end' t),
                        characterPosition = characterPosition (end' t) - 1\<rparr>,
               end' = \<lparr>linePosition = linePosition (end' t),
                       characterPosition = characterPosition (end' t) - 1\<rparr>\<rparr>)"

text \<open>
  \<^verbatim>\<open>eat\<close> returns the next token and every caller assigns it to \<^verbatim>\<open>this.currentToken\<close>;
  the model returns the state after that assignment.
\<close>

definition eat :: "Parser \<Rightarrow> tokenKind \<Rightarrow> string option \<Rightarrow> bool \<Rightarrow> Parser result" where
  "eat p type message previousTokenThrow =
     (if kind (currentToken p) = type
      then ok (p\<lparr>previousToken := Some (currentToken p),
                 currentToken := shd (lexer p),
                 lexer := stl (lexer p)\<rparr>)
      else
        (case (if previousTokenThrow then previousTokenEndLocationProvider p
               else Inr (positionOf (currentToken p))) of
           Inl e \<Rightarrow> throw e
         | Inr d \<Rightarrow>
             throw (PSIError d
               (case message of
                  Some m \<Rightarrow> m
                | None \<Rightarrow> ''Expected type '' @ tokenKindName (kind (currentToken p)) @
                    '' to be '' @ tokenKindName type))))"

subsection \<open>Expressions\<close>

definition variable :: "Parser \<Rightarrow> (AST \<times> Parser) result" where
  "variable p =
     (let node = VariableAST (positionOf (currentToken p)) (tokenValue (currentToken p)) in
      andThen (eat p IdToken None False) (\<lambda>p1. ok (node, p1)))"

fun expression :: "nat \<Rightarrow> Parser \<Rightarrow> (AST \<times> Parser) result"
  and term' :: "nat \<Rightarrow> Parser \<Rightarrow> (AST \<times> Parser) result"
  and comparison :: "nat \<Rightarrow> Parser \<Rightarrow> (AST \<times> Parser) result"
  and factor :: "nat \<Rightarrow> Parser \<Rightarrow> (AST \<times> Parser) result" where
  "expression 0 p = None"
| "expression (Suc n) p =
     andThen (term' n p) (\<lambda>(node, p1).
       let savedToken = currentToken p1 in
       if kind (currentToken p1) = PlusToken then
         andThen (eat p1 PlusToken None False) (\<lambda>p2.
         andThen (expression n p2) (\<lambda>(right, p3).
         ok (PlusAST (positionOf savedToken) node right, p3)))
       else if kind (currentToken p1) = MinusToken then
         andThen (eat p1 MinusToken None False) (\<lambda>p2.
         andThen (expression n p2) (\<lambda>(right, p3).
         ok (MinusAST (positionOf savedToken) node right, p3)))
       else if kind (currentToken p1) = OrToken then
         andThen (eat p1 OrToken None False) (\<lambda>p2.
         andThen (expression n p2) (\<lambda>(right, p3).
         ok (OrAST (positionOf savedToken) node right, p3)))
       else ok (node, p1))"
| "term' 0 p = None"
| "term' (Suc n) p =
     andThen (comparison n p) (\<lambda>(node, p1).
       let savedToken = currentToken p1 in
       if kind (currentToken p1) = MultiplicationToken then
         andThen (eat p1 MultiplicationToken None False) (\<lambda>p2.
         andThen (term' n p2) (\<lambda>(right, p3).
         ok (MultiplicationAST (positionOf savedToken) node right, p3)))
       else if kind (currentToken p1) = IntegerDivisionToken then
         andThen (eat p1 IntegerDivisionToken None False) (\<lambda>p2.
         andThen (term' n p2) (\<lambda>(right, p3).
         ok (IntegerDivisionAST (positionOf savedToken) node right, p3)))
       else if kind (currentToken p1) = RealDivisionToken then
         andThen (eat p1 RealDivisionToken None False) (\<lambda>p2.
         andThen (term' n p2) (\<lambda>(right, p3).
         ok (RealDivisionAST (positionOf savedToken) node right, p3)))
       else if kind (currentToken p1) = ModToken then
         andThen (eat p1 ModToken None False) (\<lambda>p2.
         andThen (term' n p2) (\<lambda>(right, p3).
         ok (ModAST (positionOf savedToken) node right, p3)))
       else if kind (currentToken p1) = AndToken then
         andThen (eat p1 AndToken None False) (\<lambda>p2.
         andThen (term' n p2) (\<lambda>(right, p3).
         ok (AndAST (positionOf savedToken) node right, p3)))
       else ok (node, p1))"
| "comparison 0 p = None"
| "comparison (Suc n) p =
     andThen (factor n p) (\<lambda>(node, p1).
       let savedToken = currentToken p1 in
       if kind (currentToken p1) = EqualsToken then
         andThen (eat p1 EqualsToken None False) (\<lambda>p2.
         andThen (comparison n p2) (\<lambda>(right, p3).
         ok (EqualsAST (positionOf savedToken) node right, p3)))
       else if kind (currentToken p1) = NotEqualsToken then
         andThen (eat p1 NotEqualsToken None False) (\<lambda>p2.
         andThen (comparison n p2) (\<lambda>(right, p3).
         ok (NotEqualsAST (positionOf savedToken) node right, p3)))
       else if kind (currentToken p1) = GreaterThanToken then
         andThen (eat p1 GreaterThanToken None False) (\<lambda>p2.
         andThen (comparison n p2) (\<lambda>(right, p3).
         ok (GreaterThanAST (positionOf savedToken) node right, p3)))
       else if kind (currentToken p1) = LessThanToken then
         andThen (eat p1 LessThanToken None False) (\<lambda>p2.
         andThen (comparison n p2) (\<lambda>(right, p3).
         ok (LessThanAST (positionOf savedToken) node right, p3)))
       else if kind (currentToken p1) = GreaterEqualsToken then
         andThen (eat p1 GreaterEqualsToken None False) (\<lambda>p2.
         andThen (comparison n p2) (\<lambda>(right, p3).
         ok (GreaterEqualsAST (positionOf savedToken) node right, p3)))
       else if kind (currentToken p1) = LessEqualsToken then
         andThen (eat p1 LessEqualsToken None False) (\<lambda>p2.
         andThen (comparison n p2) (\<lambda>(right, p3).
         ok (LessEqualsAST (positionOf savedToken) node right, p3)))
       else ok (node, p1))"
| "factor 0 p = None"
| "factor (Suc n) p =
     (let savedToken = currentToken p in
      if kind (currentToken p) = PlusToken then
        andThen (eat p PlusToken None False) (\<lambda>p1.
        andThen (factor n p1) (\<lambda>(operand, p2).
        ok (UnaryPlusAST (positionOf savedToken) operand, p2)))
      else if kind (currentToken p) = MinusToken then
        andThen (eat p MinusToken None False) (\<lambda>p1.
        andThen (factor n p1) (\<lambda>(operand, p2).
        ok (UnaryMinusAST (positionOf savedToken) operand, p2)))
      else if kind (currentToken p) = IntegerConstToken then
        (let v = tokenValue (currentToken p) in
         andThen (eat p IntegerConstToken None False) (\<lambda>p1.
         ok (IntegerConstantAST (positionOf savedToken) v, p1)))
      else if kind (currentToken p) = RealConstToken then
        (let v = tokenValue (currentToken p) in
         andThen (eat p RealConstToken None False) (\<lambda>p1.
         ok (RealConstantAST (positionOf savedToken) v, p1)))
      else if kind (currentToken p) = OpeningParenthesisToken then
        andThen (eat p OpeningParenthesisToken None False) (\<lambda>p1.
        andThen (expression n p1) (\<lambda>(result, p2).
        andThen (eat p2 ClosingParenthesisToken None False) (\<lambda>p3.
        ok (result, p3))))
      else if kind (currentToken p) = TrueToken then
        andThen (eat p TrueToken None False) (\<lambda>p1.
        ok (TrueAST (positionOf savedToken), p1))
      else if kind (currentToken p) = FalseToken then
        andThen (eat p FalseToken None False) (\<lambda>p1.
        ok (FalseAST (positionOf savedToken), p1))
      else if kind (currentToken p) = CharConstantToken then
        (let character = tokenValue (currentToken p) in
         andThen (eat p CharConstantToken None False) (\<lambda>p1.
         ok (CharConstantAST (positionOf savedToken) character, p1)))
      else if kind (currentToken p) = NotToken then
        andThen (eat p NotToken None False) (\<lambda>p1.
        andThen (factor n p1) (\<lambda>(operand, p2).
        ok (NotAST (positionOf savedToken) operand, p2)))
      else variable p)"

subsection \<open>Statements\<close>

text \<open>The accessors of a node that \<^verbatim>\<open>call\<close> reads from the name it parsed.\<close>

fun position :: "AST \<Rightarrow> debugInfo" where
  "position (CompoundAST d ss) = d"
| "position (AssignmentAST d l r) = d"
| "position (IfAST d c s nx) = d"
| "position (ForAST d a i f s) = d"
| "position (WhileAST d c s) = d"
| "position (RepeatAST d c ss) = d"
| "position (CallAST d n as) = d"
| "position (VariableAST d n) = d"
| "position (EmptyAST d) = d"
| "position (PlusAST d l r) = d"
| "position (MinusAST d l r) = d"
| "position (OrAST d l r) = d"
| "position (MultiplicationAST d l r) = d"
| "position (IntegerDivisionAST d l r) = d"
| "position (RealDivisionAST d l r) = d"
| "position (ModAST d l r) = d"
| "position (AndAST d l r) = d"
| "position (EqualsAST d l r) = d"
| "position (NotEqualsAST d l r) = d"
| "position (GreaterThanAST d l r) = d"
| "position (LessThanAST d l r) = d"
| "position (GreaterEqualsAST d l r) = d"
| "position (LessEqualsAST d l r) = d"
| "position (UnaryPlusAST d x) = d"
| "position (UnaryMinusAST d x) = d"
| "position (NotAST d x) = d"
| "position (IntegerConstantAST d v) = d"
| "position (RealConstantAST d v) = d"
| "position (CharConstantAST d v) = d"
| "position (TrueAST d) = d"
| "position (FalseAST d) = d"

fun astName :: "AST \<Rightarrow> string" where
  "astName (VariableAST d n) = n"
| "astName (CallAST d n as) = n"

definition empty' :: "Parser \<Rightarrow> AST" where
  "empty' p = EmptyAST (positionOf (currentToken p))"

definition assignmentExpression :: "nat \<Rightarrow> Parser \<Rightarrow> (AST \<times> Parser) result" where
  "assignmentExpression n p =
     andThen (variable p) (\<lambda>(left, p1).
       let assignmentToken = currentToken p1 in
       andThen (eat p1 AssignToken (Some ''Invalid statement'') True) (\<lambda>p2.
       andThen (expression n p2) (\<lambda>(right, p3).
       ok (AssignmentAST (positionOf assignmentToken) left right, p3))))"

text \<open>The \<^verbatim>\<open>while\<close> loop of \<^verbatim>\<open>call\<close> over the comma-separated arguments.\<close>

fun callArguments :: "nat \<Rightarrow> AST list \<Rightarrow> Parser \<Rightarrow> (AST list \<times> Parser) result" where
  "callArguments 0 args p = None"
| "callArguments (Suc n) args p =
     (if kind (currentToken p) = CommaToken then
        andThen (eat p CommaToken None False) (\<lambda>p1.
        andThen (expression n p1) (\<lambda>(arg, p2).
        callArguments n (args @ [arg]) p2))
      else ok (args, p))"

definition call :: "nat \<Rightarrow> Parser \<Rightarrow> (AST \<times> Parser) result" where
  "call n p =
     andThen (variable p) (\<lambda>(nameAST, p1).
       let name = astName nameAST in
       andThen (eat p1 OpeningParenthesisToken None False) (\<lambda>p2.
       andThen
         (if kind (currentToken p2) \<noteq> ClosingParenthesisToken then
            andThen (expression n p2) (\<lambda>(arg, p3). callArguments n [arg] p3)
          else ok ([], p2)) (\<lambda>(args, p4).
       andThen (eat p4 ClosingParenthesisToken
                  (Some ''Expected closing parenthesis after procedure/function call'') True) (\<lambda>p5.
       ok (CallAST (position nameAST) name args, p5)))))"

definition statementListTerminators :: "tokenKind list" where
  "statementListTerminators = [EndToken, UntilToken]"

definition previousTokenIs :: "Parser \<Rightarrow> tokenKind \<Rightarrow> bool" where
  "previousTokenIs p type = (case previousToken p of None \<Rightarrow> False | Some t \<Rightarrow> kind t = type)"

text \<open>
  The loops are recursive functions over the statements read so far
  (\<open>statementListLoop\<close>) and over the \<^verbatim>\<open>If\<close> node the next alternative is linked to
  (\<open>ifStatementLoop\<close>). \<^verbatim>\<open>addNext\<close> mutates a node that the first \<^verbatim>\<open>If\<close> already reaches;
  \<open>ifStatementLoop\<close> returns \<open>currentIf\<close> with everything linked below it, and the caller
  links that, which gives the same tree: once \<^verbatim>\<open>currentIf\<close> moves on to \<^verbatim>\<open>newIf\<close>, the
  older node is not touched again.
\<close>

fun statement :: "nat \<Rightarrow> Parser \<Rightarrow> (AST \<times> Parser) result"
  and compoundStatement :: "nat \<Rightarrow> Parser \<Rightarrow> (AST \<times> Parser) result"
  and statementList :: "nat \<Rightarrow> Parser \<Rightarrow> (AST list \<times> Parser) result"
  and statementListLoop :: "nat \<Rightarrow> AST list \<Rightarrow> Parser \<Rightarrow> (AST list \<times> Parser) result"
  and ifStatement :: "nat \<Rightarrow> Parser \<Rightarrow> (AST \<times> Parser) result"
  and ifStatementLoop :: "nat \<Rightarrow> AST \<Rightarrow> Parser \<Rightarrow> (AST \<times> Parser) result"
  and if' :: "nat \<Rightarrow> Parser \<Rightarrow> (AST \<times> Parser) result"
  and for' :: "nat \<Rightarrow> Parser \<Rightarrow> (AST \<times> Parser) result"
  and while' :: "nat \<Rightarrow> Parser \<Rightarrow> (AST \<times> Parser) result"
  and repeat' :: "nat \<Rightarrow> Parser \<Rightarrow> (AST \<times> Parser) result" where
  "statement 0 p = None"
| "statement (Suc n) p =
     (if kind (currentToken p) = BeginToken then compoundStatement n p
      else if kind (currentToken p) = IdToken \<and> kind (peek p) = OpeningParenthesisToken
        then call n p
      else if kind (currentToken p) = IdToken then assignmentExpression n p
      else if kind (currentToken p) = IfToken then ifStatement n p
      else if kind (currentToken p) = ForToken then for' n p
      else if kind (currentToken p) = WhileToken then while' n p
      else if kind (currentToken p) = RepeatToken then repeat' n p
      else ok (empty' p, p))"
| "compoundStatement 0 p = None"
| "compoundStatement (Suc n) p =
     (let beginToken = currentToken p in
      andThen (eat p BeginToken None False) (\<lambda>p1.
      andThen (statementList n p1) (\<lambda>(statements, p2).
      andThen (eat p2 EndToken (Some ''Expected compound statement to end with end'') False) (\<lambda>p3.
      ok (CompoundAST (positionOf beginToken) statements, p3)))))"
| "statementList 0 p = None"
| "statementList (Suc n) p =
     andThen (statement n p) (\<lambda>(first, p1).
     andThen (statementListLoop n [first] p1) (\<lambda>(statements, p2).
       if \<not> List.member statementListTerminators (kind (currentToken p2)) \<and>
          \<not> previousTokenIs p2 SemiToken
       then
         (case previousTokenEndLocationProvider p2 of
            Inl e \<Rightarrow> throw e
          | Inr d \<Rightarrow> throw (PSIError d ''Expected statement to end with a semi colon''))
       else ok (statements, p2)))"
| "statementListLoop 0 statements p = None"
| "statementListLoop (Suc n) statements p =
     (if kind (currentToken p) = SemiToken then
        andThen (eat p SemiToken None False) (\<lambda>p1.
        andThen (statement n p1) (\<lambda>(s, p2).
        statementListLoop n (statements @ [s]) p2))
      else ok (statements, p))"
| "ifStatement 0 p = None"
| "ifStatement (Suc n) p =
     andThen (if' n p) (\<lambda>(firstIf, p1). ifStatementLoop n firstIf p1)"
| "ifStatementLoop 0 currentIf p = None"
| "ifStatementLoop (Suc n) currentIf p =
     (if kind (currentToken p) = ElseToken then
        andThen (eat p ElseToken None False) (\<lambda>p1.
          if kind (currentToken p1) = IfToken then
            andThen (if' n p1) (\<lambda>(newIf, p2).
            andThen (ifStatementLoop n newIf p2) (\<lambda>(newIf', p3).
            ok (addNext currentIf newIf', p3)))
          else
            andThen (statement n p1) (\<lambda>(alternative, p2).
            ifStatementLoop n (addNext currentIf alternative) p2))
      else ok (currentIf, p))"
| "if' 0 p = None"
| "if' (Suc n) p =
     (let ifToken = currentToken p in
      andThen (eat p IfToken None False) (\<lambda>p1.
      andThen (expression n p1) (\<lambda>(expr, p2).
      andThen (eat p2 ThenToken (Some ''Expected then after if condition'') True) (\<lambda>p3.
      andThen (statement n p3) (\<lambda>(body, p4).
      ok (IfAST (positionOf ifToken) expr body None, p4))))))"
| "for' 0 p = None"
| "for' (Suc n) p =
     (let forToken = currentToken p in
      andThen (eat p ForToken None False) (\<lambda>p1.
      andThen (assignmentExpression n p1) (\<lambda>(assignment, p2).
      andThen
        (if kind (currentToken p2) = ToToken then
           (let increment = PSIBoolean (positionOf (currentToken p2)) True in
            andThen (eat p2 ToToken None False) (\<lambda>p3. ok (increment, p3)))
         else if kind (currentToken p2) = DownToToken then
           (let increment = PSIBoolean (positionOf (currentToken p2)) False in
            andThen (eat p2 DownToToken None False) (\<lambda>p3. ok (increment, p3)))
         else
           (case previousTokenEndLocationProvider p2 of
              Inl e \<Rightarrow> throw e
            | Inr d \<Rightarrow> throw (PSIError d ''Expected to/down to after for''))) (\<lambda>(increment, p3).
      andThen (expression n p3) (\<lambda>(finalValue, p4).
      andThen (eat p4 DoToken (Some ''Expected do after for header'') True) (\<lambda>p5.
      andThen (statement n p5) (\<lambda>(body, p6).
      ok (ForAST (positionOf forToken) assignment increment finalValue body, p6))))))))"
| "while' 0 p = None"
| "while' (Suc n) p =
     (let whileToken = currentToken p in
      andThen (eat p WhileToken None False) (\<lambda>p1.
      andThen (expression n p1) (\<lambda>(condition, p2).
      andThen (eat p2 DoToken (Some ''Expected do after while condition'') True) (\<lambda>p3.
      andThen (statement n p3) (\<lambda>(body, p4).
      ok (WhileAST (positionOf whileToken) condition body, p4))))))"
| "repeat' 0 p = None"
| "repeat' (Suc n) p =
     (let repeatToken = currentToken p in
      andThen (eat p RepeatToken None False) (\<lambda>p1.
      andThen (statementList n p1) (\<lambda>(statements, p2).
      andThen (eat p2 UntilToken (Some ''Expected until at the end of a repeat loop'') True) (\<lambda>p3.
      andThen (expression n p3) (\<lambda>(condition, p4).
      ok (RepeatAST (positionOf repeatToken) condition statements, p4))))))"

section \<open>Vocabulary of the statements below\<close>

text \<open>
  The one-token operands of \<^verbatim>\<open>factor\<close> and the node each of them becomes; the operator
  tokens of the three binary rules and the node class of each; the node of the statement
  \<^verbatim>\<open>x := e\<close> for a one-token \<open>e\<close>; the alternatives of an else-chain in the order of its
  \<^verbatim>\<open>next\<close> links; and a token written on one line (kind, text, line, first and last column).
\<close>

definition atomKinds :: "tokenKind list" where
  "atomKinds =
     [IntegerConstToken, RealConstToken, TrueToken, FalseToken, CharConstantToken, IdToken]"

definition atomAST :: "token \<Rightarrow> AST" where
  "atomAST t =
     (if kind t = IntegerConstToken then IntegerConstantAST (positionOf t) (tokenValue t)
      else if kind t = RealConstToken then RealConstantAST (positionOf t) (tokenValue t)
      else if kind t = TrueToken then TrueAST (positionOf t)
      else if kind t = FalseToken then FalseAST (positionOf t)
      else if kind t = CharConstantToken then CharConstantAST (positionOf t) (tokenValue t)
      else VariableAST (positionOf t) (tokenValue t))"

definition expressionOperators :: "tokenKind list" where
  "expressionOperators = [PlusToken, MinusToken, OrToken]"

definition termOperators :: "tokenKind list" where
  "termOperators =
     [MultiplicationToken, IntegerDivisionToken, RealDivisionToken, ModToken, AndToken]"

definition comparisonOperators :: "tokenKind list" where
  "comparisonOperators =
     [EqualsToken, NotEqualsToken, GreaterThanToken, LessThanToken, GreaterEqualsToken,
      LessEqualsToken]"

definition binaryOperators :: "tokenKind list" where
  "binaryOperators = expressionOperators @ termOperators @ comparisonOperators"

fun binaryAST :: "tokenKind \<Rightarrow> debugInfo \<Rightarrow> AST \<Rightarrow> AST \<Rightarrow> AST" where
  "binaryAST PlusToken = PlusAST"
| "binaryAST MinusToken = MinusAST"
| "binaryAST OrToken = OrAST"
| "binaryAST MultiplicationToken = MultiplicationAST"
| "binaryAST IntegerDivisionToken = IntegerDivisionAST"
| "binaryAST RealDivisionToken = RealDivisionAST"
| "binaryAST ModToken = ModAST"
| "binaryAST AndToken = AndAST"
| "binaryAST EqualsToken = EqualsAST"
| "binaryAST NotEqualsToken = NotEqualsAST"
| "binaryAST GreaterThanToken = GreaterThanAST"
| "binaryAST LessThanToken = LessThanAST"
| "binaryAST GreaterEqualsToken = GreaterEqualsAST"
| "binaryAST LessEqualsToken = LessEqualsAST"

definition binaryNode :: "token \<Rightarrow> AST \<Rightarrow> AST \<Rightarrow> AST" where
  "binaryNode operator left right = binaryAST (kind operator) (positionOf operator) left right"

definition assignmentNode :: "token \<Rightarrow> token \<Rightarrow> token \<Rightarrow> AST" where
  "assignmentNode x assign e =
     AssignmentAST (positionOf assign) (VariableAST (positionOf x) (tokenValue x)) (atomAST e)"

fun alternatives :: "AST \<Rightarrow> AST list" where
  "alternatives (IfAST d condition body None) = [IfAST d condition body None]"
| "alternatives (IfAST d condition body (Some next)) =
     IfAST d condition body None # alternatives next"
| "alternatives other = [other]"

definition mkToken :: "tokenKind \<Rightarrow> string \<Rightarrow> int \<Rightarrow> int \<Rightarrow> int \<Rightarrow> token" where
  "mkToken k text line c1 c2 =
     \<lparr>start = \<lparr>linePosition = line, characterPosition = c1\<rparr>,
      end' = \<lparr>linePosition = line, characterPosition = c2\<rparr>,
      kind = k, tokenValue = text\<rparr>"

definition at :: "int \<Rightarrow> int \<Rightarrow> int \<Rightarrow> debugInfo" where
  "at line c1 c2 =
     \<lparr>start = \<lparr>linePosition = line, characterPosition = c1\<rparr>,
      end' = \<lparr>linePosition = line, characterPosition = c2\<rparr>\<rparr>"

section \<open>Properties of the symbol scope\<close>

subsection \<open>Keys\<close>

lemma toLowerCase_examples:
  "toLowerCase ''x'' = ''x''" "toLowerCase ''X'' = ''x''" "toLowerCase ''y'' = ''y''"
  "toLowerCase ''Count'' = ''count''" "toLowerCase ''COUNT'' = ''count''"
  by (simp_all add: toLowerCase_def lowerChar_def)

subsection \<open>Looking up values\<close>

lemma resolveValue_without_filter:
  "resolveValue (this # outer) name None =
     (case cimGet (valueTable this) name of None \<Rightarrow> Undefined | Some r \<Rightarrow> Object r)"
  by (simp split: option.splits)

lemma resolveValue_absent_here:
  "cimGet (valueTable this) name = None \<Longrightarrow> resolveValue (this # outer) name type = Undefined"
  by simp

lemma resolve_walks_outward:
  "cimGet (scopeTable this) name = None \<Longrightarrow> outer \<noteq> [] \<Longrightarrow>
   resolve (this # outer) name type = resolve outer name type"
  by simp

text \<open>
  C1. \<^verbatim>\<open>resolveValue\<close> does not walk outward when the name is absent from the receiver's
  value table: a procedure scope with no value for \<^verbatim>\<open>x\<close>, whose parent holds the value 5
  for \<^verbatim>\<open>x\<close>, answers \<^verbatim>\<open>undefined\<close> (with and without a filter), although the parent
  itself answers 5 and \<^verbatim>\<open>resolve\<close>, on the declaration tables of the same chain, finds the
  symbol in the parent.
\<close>

theorem resolveValue_misses_ancestor_value:
  "resolveValue
     [\<lparr>scopeName = ''p'', scopeTable = Map.empty, valueTable = Map.empty\<rparr>,
      \<lparr>scopeName = ''global'',
       scopeTable = [''x'' \<mapsto> VariableSymbol ''x'' \<lparr>defaultValue = Some (0::int)\<rparr>],
       valueTable = [''x'' \<mapsto> 5]\<rparr>] ''x'' None = Undefined \<and>
   resolveValue
     [\<lparr>scopeName = ''p'', scopeTable = Map.empty, valueTable = Map.empty\<rparr>,
      \<lparr>scopeName = ''global'',
       scopeTable = [''x'' \<mapsto> VariableSymbol ''x'' \<lparr>defaultValue = Some (0::int)\<rparr>],
       valueTable = [''x'' \<mapsto> 5]\<rparr>] ''x'' (Some (\<lambda>v. True)) = Undefined \<and>
   resolveValue
     [\<lparr>scopeName = ''global'',
       scopeTable = [''x'' \<mapsto> VariableSymbol ''x'' \<lparr>defaultValue = Some (0::int)\<rparr>],
       valueTable = [''x'' \<mapsto> 5]\<rparr>] ''x'' None = Object 5 \<and>
   resolve
     [\<lparr>scopeName = ''p'', scopeTable = Map.empty, valueTable = Map.empty\<rparr>,
      \<lparr>scopeName = ''global'',
       scopeTable = [''x'' \<mapsto> VariableSymbol ''x'' \<lparr>defaultValue = Some (0::int)\<rparr>],
       valueTable = [''x'' \<mapsto> 5]\<rparr>] ''x'' None =
     Object (VariableSymbol ''x'' \<lparr>defaultValue = Some 0\<rparr>)"
  by (simp add: cimGet_def toLowerCase_examples)

subsection \<open>Finding the declaring scope\<close>

lemma findScope_None_iff:
  "chain \<noteq> [] \<Longrightarrow>
   findScope chain name = None \<longleftrightarrow> (\<forall>s \<in> set chain. \<not> cimHas (scopeTable s) name)"
proof (induction chain)
  case Nil
  then show ?case by simp
next
  case (Cons this outer)
  then show ?case by (cases outer) (auto simp: cimHas_def cimGet_def Let_def)
qed

lemma findScope_Some_iff:
  "chain \<noteq> [] \<Longrightarrow>
   findScope chain name = Some k \<longleftrightarrow>
     (k < length chain \<and> cimHas (scopeTable (chain ! k)) name \<and>
      (\<forall>j<k. \<not> cimHas (scopeTable (chain ! j)) name))"
proof (induction chain arbitrary: k)
  case Nil
  then show ?case by simp
next
  case (Cons this outer)
  show ?case
  proof (cases "cimHas (scopeTable this) name")
    case True
    then show ?thesis
      by (cases k) (auto simp: cimHas_def cimGet_def Let_def)
  next
    case False
    note absent = this
    show ?thesis
    proof (cases "outer = []")
      case True
      with absent show ?thesis by (cases k) (auto simp: cimHas_def cimGet_def Let_def)
    next
      case False
      note more = this
      show ?thesis
      proof (cases k)
        case 0
        with absent more show ?thesis by (auto simp: cimHas_def cimGet_def Let_def)
      next
        case (Suc k')
        have "findScope (this # outer) name = Some k \<longleftrightarrow> findScope outer name = Some k'"
          using absent more Suc by (auto simp: cimHas_def cimGet_def Let_def)
        also have "\<dots> \<longleftrightarrow>
            (k' < length outer \<and> cimHas (scopeTable (outer ! k')) name \<and>
             (\<forall>j<k'. \<not> cimHas (scopeTable (outer ! j)) name))"
          using Cons.IH [OF more] by simp
        also have "\<dots> \<longleftrightarrow>
            (k < length (this # outer) \<and> cimHas (scopeTable ((this # outer) ! k)) name \<and>
             (\<forall>j<k. \<not> cimHas (scopeTable ((this # outer) ! j)) name))"
          using absent Suc by (auto simp: less_Suc_eq_0_disj)
        finally show ?thesis .
      qed
    qed
  qed
qed

lemma findScope_declared:
  assumes "chain \<noteq> []" and "\<exists>s \<in> set chain. cimHas (scopeTable s) name"
  obtains k where "findScope chain name = Some k"
  using assms findScope_None_iff [of chain name] by (cases "findScope chain name") auto

text \<open>
  C7. When the name is declared in the receiver or an ancestor, \<^verbatim>\<open>changeValue\<close> succeeds.
  The scope it writes to is the nearest one whose declaration table has the name (no nearer
  scope declares it), whatever the value tables hold; that scope's value table gets the
  value under the name, and every other scope and every other entry stays as it was.
\<close>

theorem changeValue_writes_declaring_scope:
  assumes "chain \<noteq> []" and "\<exists>s \<in> set chain. cimHas (scopeTable s) name"
  shows "\<exists>k. k < length chain \<and> cimHas (scopeTable (chain ! k)) name \<and>
           (\<forall>j<k. \<not> cimHas (scopeTable (chain ! j)) name) \<and>
           findScope chain name = Some k \<and>
           changeValue chain name v =
             Inr (chain[k := (chain ! k)
                    \<lparr>valueTable := (valueTable (chain ! k))(toLowerCase name \<mapsto> v)\<rparr>]) \<and>
           (\<forall>chain'. changeValue chain name v = Inr chain' \<longrightarrow>
              resolveValueThisScopeOnly (chain' ! k) name = Object v \<and>
              length chain' = length chain \<and>
              (\<forall>j<length chain. j \<noteq> k \<longrightarrow> chain' ! j = chain ! j) \<and>
              scopeTable (chain' ! k) = scopeTable (chain ! k) \<and>
              (\<forall>other. toLowerCase other \<noteq> toLowerCase name \<longrightarrow>
                 cimGet (valueTable (chain' ! k)) other = cimGet (valueTable (chain ! k)) other))"
proof -
  from assms obtain k where k: "findScope chain name = Some k"
    by (rule findScope_declared)
  with assms(1) have props: "k < length chain" "cimHas (scopeTable (chain ! k)) name"
    "\<forall>j<k. \<not> cimHas (scopeTable (chain ! j)) name"
    by (simp_all add: findScope_Some_iff)
  have cv: "changeValue chain name v =
      Inr (chain[k := (chain ! k)\<lparr>valueTable := (valueTable (chain ! k))(toLowerCase name \<mapsto> v)\<rparr>])"
    using k by (simp add: changeValue_def cimSet_def)
  show ?thesis
    using k props cv
    by (intro exI [of _ k]) (auto simp: resolveValueThisScopeOnly_def cimGet_def)
qed

theorem changeValue_writes_declaring_scope_witness:
  "changeValue
     [\<lparr>scopeName = ''p'', scopeTable = Map.empty, valueTable = [''x'' \<mapsto> (7::int)]\<rparr>,
      \<lparr>scopeName = ''global'',
       scopeTable = [''x'' \<mapsto> VariableSymbol ''x'' \<lparr>defaultValue = Some 0\<rparr>],
       valueTable = [''x'' \<mapsto> 0]\<rparr>] ''X'' 5 =
   Inr [\<lparr>scopeName = ''p'', scopeTable = Map.empty, valueTable = [''x'' \<mapsto> 7]\<rparr>,
        \<lparr>scopeName = ''global'',
         scopeTable = [''x'' \<mapsto> VariableSymbol ''x'' \<lparr>defaultValue = Some 0\<rparr>],
         valueTable = [''x'' \<mapsto> 5]\<rparr>]"
proof -
  let ?p = "\<lparr>scopeName = ''p'', scopeTable = Map.empty, valueTable = [''x'' \<mapsto> (7::int)]\<rparr>"
  let ?g = "\<lparr>scopeName = ''global'',
       scopeTable = [''x'' \<mapsto> VariableSymbol ''x'' \<lparr>defaultValue = Some (0::int)\<rparr>],
       valueTable = [''x'' \<mapsto> 0]\<rparr>"
  have declared: "\<exists>s \<in> set [?p, ?g]. cimHas (scopeTable s) ''X''"
    by (simp add: cimHas_def toLowerCase_examples)
  have notp: "\<not> cimHas (scopeTable ?p) ''X''"
    by (simp add: cimHas_def)
  from changeValue_writes_declaring_scope [OF _ declared, of 5]
  obtain k where k: "k < length [?p, ?g]" "cimHas (scopeTable ([?p, ?g] ! k)) ''X''"
    and cv: "changeValue [?p, ?g] ''X'' 5 =
             Inr ([?p, ?g][k := ([?p, ?g] ! k)
                    \<lparr>valueTable := (valueTable ([?p, ?g] ! k))(toLowerCase ''X'' \<mapsto> 5)\<rparr>])"
    by auto
  from k notp have "k = 1"
    by (cases k) auto
  with cv show ?thesis
    by (simp add: toLowerCase_examples)
qed

subsection \<open>Declaring a symbol\<close>

lemma insertSymbol_redeclared:
  "cimHas (scopeTable s) (symbolName y) \<Longrightarrow>
   insertSymbol s y = Inl (PSIError y (''Symbol '' @ symbolName y @ '' is being redeclared''))"
  by (simp add: insertSymbol_def has_def)

lemma insertSymbol_fresh:
  "\<not> cimHas (scopeTable s) (symbolName y) \<Longrightarrow>
   insertSymbol s y =
     Inr (s\<lparr>scopeTable := (scopeTable s)(toLowerCase (symbolName y) \<mapsto> y),
            valueTable :=
              (case y of
                 VariableSymbol n t \<Rightarrow>
                   (case defaultValue t of
                      Some d \<Rightarrow> (valueTable s)(toLowerCase n \<mapsto> d)
                    | None \<Rightarrow> valueTable s)
               | ProcedureSymbol n \<Rightarrow> valueTable s)\<rparr>)"
  by (cases y) (simp_all add: insertSymbol_def has_def cimSet_def Let_def split: option.splits)

text \<open>
  C6. \<^verbatim>\<open>insert\<close> fails with the redeclaration error exactly when the receiver's own
  declaration table has the symbol's name up to case, in particular after a symbol whose
  name differs only in case was inserted; otherwise it succeeds and the receiver then
  declares the symbol, whatever the ancestors declare, so that the name resolves to the new
  symbol from the receiver while the parent's own declaration is untouched. When the symbol
  is a variable whose type has a default value, the receiver's value table then holds that
  default under the name.
\<close>

theorem insertSymbol_redeclaration_shadowing_default:
  "(cimHas (scopeTable s) (symbolName y) \<longrightarrow>
      insertSymbol s y =
        Inl (PSIError y (''Symbol '' @ symbolName y @ '' is being redeclared''))) \<and>
   (\<not> cimHas (scopeTable s) (symbolName y) \<longrightarrow>
      (\<exists>s'. insertSymbol s y = Inr s' \<and>
         scopeTable s' = (scopeTable s)(toLowerCase (symbolName y) \<mapsto> y) \<and>
         scopeName s' = scopeName s \<and>
         resolve (s' # outer) (symbolName y) None = Object y \<and>
         (\<forall>z. toLowerCase (symbolName z) = toLowerCase (symbolName y) \<longrightarrow>
            insertSymbol s' z =
              Inl (PSIError z (''Symbol '' @ symbolName z @ '' is being redeclared''))) \<and>
         (\<forall>n t d. y = VariableSymbol n t \<and> defaultValue t = Some d \<longrightarrow>
            resolveValueThisScopeOnly s' n = Object d \<and>
            valueTable s' = (valueTable s)(toLowerCase n \<mapsto> d)) \<and>
         (\<forall>n t. y = VariableSymbol n t \<and> defaultValue t = None \<longrightarrow>
            valueTable s' = valueTable s) \<and>
         (\<forall>n. y = ProcedureSymbol n \<longrightarrow> valueTable s' = valueTable s)))"
proof (intro conjI impI)
  assume "cimHas (scopeTable s) (symbolName y)"
  then show "insertSymbol s y =
      Inl (PSIError y (''Symbol '' @ symbolName y @ '' is being redeclared''))"
    by (rule insertSymbol_redeclared)
next
  assume fresh: "\<not> cimHas (scopeTable s) (symbolName y)"
  let ?s' = "s\<lparr>scopeTable := (scopeTable s)(toLowerCase (symbolName y) \<mapsto> y),
            valueTable :=
              (case y of
                 VariableSymbol n t \<Rightarrow>
                   (case defaultValue t of
                      Some d \<Rightarrow> (valueTable s)(toLowerCase n \<mapsto> d)
                    | None \<Rightarrow> valueTable s)
               | ProcedureSymbol n \<Rightarrow> valueTable s)\<rparr>"
  have ins: "insertSymbol s y = Inr ?s'"
    using fresh by (rule insertSymbol_fresh)
  have again: "\<forall>z. toLowerCase (symbolName z) = toLowerCase (symbolName y) \<longrightarrow>
            insertSymbol ?s' z =
              Inl (PSIError z (''Symbol '' @ symbolName z @ '' is being redeclared''))"
  proof (intro allI impI)
    fix z :: "'a PSISymbol"
    assume "toLowerCase (symbolName z) = toLowerCase (symbolName y)"
    then have "cimHas (scopeTable ?s') (symbolName z)"
      by (simp add: cimHas_def)
    then show "insertSymbol ?s' z =
        Inl (PSIError z (''Symbol '' @ symbolName z @ '' is being redeclared''))"
      by (rule insertSymbol_redeclared)
  qed
  have res: "resolve (?s' # outer) (symbolName y) None = Object y"
    by (simp add: cimGet_def)
  show "\<exists>s'. insertSymbol s y = Inr s' \<and>
         scopeTable s' = (scopeTable s)(toLowerCase (symbolName y) \<mapsto> y) \<and>
         scopeName s' = scopeName s \<and>
         resolve (s' # outer) (symbolName y) None = Object y \<and>
         (\<forall>z. toLowerCase (symbolName z) = toLowerCase (symbolName y) \<longrightarrow>
            insertSymbol s' z =
              Inl (PSIError z (''Symbol '' @ symbolName z @ '' is being redeclared''))) \<and>
         (\<forall>n t d. y = VariableSymbol n t \<and> defaultValue t = Some d \<longrightarrow>
            resolveValueThisScopeOnly s' n = Object d \<and>
            valueTable s' = (valueTable s)(toLowerCase n \<mapsto> d)) \<and>
         (\<forall>n t. y = VariableSymbol n t \<and> defaultValue t = None \<longrightarrow>
            valueTable s' = valueTable s) \<and>
         (\<forall>n. y = ProcedureSymbol n \<longrightarrow> valueTable s' = valueTable s)"
    using ins again res
    by (intro exI [of _ ?s']) (auto simp: resolveValueThisScopeOnly_def cimGet_def)
qed

text \<open>
  The global scope declares \<^verbatim>\<open>x\<close>. Declaring \<^verbatim>\<open>X\<close> there again fails; declaring \<^verbatim>\<open>X\<close>
  with default 0 in an empty procedure scope below it succeeds, seeds the value 0, and
  shadows the global symbol.
\<close>

theorem insertSymbol_redeclaration_shadowing_default_witness:
  "insertSymbol
     \<lparr>scopeName = ''global'',
      scopeTable = [''x'' \<mapsto> VariableSymbol ''x'' \<lparr>defaultValue = Some (0::int)\<rparr>],
      valueTable = [''x'' \<mapsto> 0]\<rparr>
     (VariableSymbol ''X'' \<lparr>defaultValue = Some 0\<rparr>) =
     Inl (PSIError (VariableSymbol ''X'' \<lparr>defaultValue = Some 0\<rparr>)
            ''Symbol X is being redeclared'') \<and>
   (\<exists>s'. insertSymbol \<lparr>scopeName = ''p'', scopeTable = Map.empty, valueTable = Map.empty\<rparr>
            (VariableSymbol ''X'' \<lparr>defaultValue = Some (0::int)\<rparr>) = Inr s' \<and>
      resolveValueThisScopeOnly s' ''X'' = Object 0 \<and>
      resolve
        [s', \<lparr>scopeName = ''global'',
              scopeTable = [''x'' \<mapsto> VariableSymbol ''x'' \<lparr>defaultValue = Some (0::int)\<rparr>],
              valueTable = [''x'' \<mapsto> 0]\<rparr>] ''X'' None =
        Object (VariableSymbol ''X'' \<lparr>defaultValue = Some 0\<rparr>))"
proof -
  let ?g = "\<lparr>scopeName = ''global'',
      scopeTable = [''x'' \<mapsto> VariableSymbol ''x'' \<lparr>defaultValue = Some (0::int)\<rparr>],
      valueTable = [''x'' \<mapsto> 0]\<rparr>"
  let ?p = "\<lparr>scopeName = ''p'', scopeTable = Map.empty, valueTable = Map.empty\<rparr>
              :: int SymbolScope"
  let ?y = "VariableSymbol ''X'' \<lparr>defaultValue = Some (0::int)\<rparr>"
  have declared: "cimHas (scopeTable ?g) (symbolName ?y)"
    by (simp add: cimHas_def toLowerCase_examples)
  have fresh: "\<not> cimHas (scopeTable ?p) (symbolName ?y)"
    by (simp add: cimHas_def)
  have "cimHas (scopeTable ?g) (symbolName ?y) \<longrightarrow>
      insertSymbol ?g ?y =
        Inl (PSIError ?y (''Symbol '' @ symbolName ?y @ '' is being redeclared''))"
    using insertSymbol_redeclaration_shadowing_default [of ?g ?y "[]"] by (rule conjunct1)
  with declared have first: "insertSymbol ?g ?y = Inl (PSIError ?y ''Symbol X is being redeclared'')"
    by simp
  have "\<not> cimHas (scopeTable ?p) (symbolName ?y) \<longrightarrow>
      (\<exists>s'. insertSymbol ?p ?y = Inr s' \<and>
         scopeTable s' = (scopeTable ?p)(toLowerCase (symbolName ?y) \<mapsto> ?y) \<and>
         scopeName s' = scopeName ?p \<and>
         resolve (s' # [?g]) (symbolName ?y) None = Object ?y \<and>
         (\<forall>z. toLowerCase (symbolName z) = toLowerCase (symbolName ?y) \<longrightarrow>
            insertSymbol s' z =
              Inl (PSIError z (''Symbol '' @ symbolName z @ '' is being redeclared''))) \<and>
         (\<forall>n t d. ?y = VariableSymbol n t \<and> defaultValue t = Some d \<longrightarrow>
            resolveValueThisScopeOnly s' n = Object d \<and>
            valueTable s' = (valueTable ?p)(toLowerCase n \<mapsto> d)) \<and>
         (\<forall>n t. ?y = VariableSymbol n t \<and> defaultValue t = None \<longrightarrow>
            valueTable s' = valueTable ?p) \<and>
         (\<forall>n. ?y = ProcedureSymbol n \<longrightarrow> valueTable s' = valueTable ?p))"
    using insertSymbol_redeclaration_shadowing_default [of ?p ?y "[?g]"] by (rule conjunct2)
  with fresh obtain s' where ins: "insertSymbol ?p ?y = Inr s'"
    and res: "resolve (s' # [?g]) (symbolName ?y) None = Object ?y"
    and seed: "\<forall>n t d. ?y = VariableSymbol n t \<and> defaultValue t = Some d \<longrightarrow>
            resolveValueThisScopeOnly s' n = Object d \<and>
            valueTable s' = (valueTable ?p)(toLowerCase n \<mapsto> d)"
    by (elim impE exE conjE) assumption
  have "?y = VariableSymbol ''X'' \<lparr>defaultValue = Some 0\<rparr> \<and>
      defaultValue \<lparr>defaultValue = Some (0::int)\<rparr> = Some 0"
    by simp
  with seed have "resolveValueThisScopeOnly s' ''X'' = Object 0"
    by blast
  with ins res have "insertSymbol ?p ?y = Inr s' \<and> resolveValueThisScopeOnly s' ''X'' = Object 0 \<and>
      resolve [s', ?g] ''X'' None = Object ?y"
    by simp
  then have "\<exists>s'. insertSymbol ?p ?y = Inr s' \<and> resolveValueThisScopeOnly s' ''X'' = Object 0 \<and>
      resolve [s', ?g] ''X'' None = Object ?y"
    by (rule exI [of _ s'])
  with first show ?thesis
    by (rule conjI)
qed

subsection \<open>Writing to an undeclared name\<close>

text \<open>
  C10. \<^verbatim>\<open>findScope\<close> answers \<^verbatim>\<open>null\<close> exactly when no scope of the chain declares the
  name. Then \<^verbatim>\<open>changeValue\<close> and \<^verbatim>\<open>changeArrayValue\<close> both end in the TypeError of a
  property read from \<^verbatim>\<open>null\<close>, not in a \<^verbatim>\<open>PSIError\<close> and not in an unchanged chain. When
  some scope of the chain declares the name, \<^verbatim>\<open>findScope\<close> answers a scope,
  \<^verbatim>\<open>changeValue\<close> succeeds, and \<^verbatim>\<open>changeArrayValue\<close> goes on to read the container from
  that scope.
\<close>

theorem changeValue_undeclared_crashes:
  assumes "chain \<noteq> []"
  shows "(findScope chain name = None \<longleftrightarrow> (\<forall>s \<in> set chain. \<not> cimHas (scopeTable s) name)) \<and>
         ((\<forall>s \<in> set chain. \<not> cimHas (scopeTable s) name) \<longrightarrow>
            changeValue chain name v = Inl (TypeError ''value'') \<and>
            changeArrayValue arrayChangeValue chain name accessors v =
              Inl (TypeError ''resolveValueThisScopeOnly'')) \<and>
         ((\<exists>s \<in> set chain. cimHas (scopeTable s) name) \<longrightarrow>
            (\<exists>k. findScope chain name = Some k \<and> k < length chain \<and>
               (\<exists>chain'. changeValue chain name v = Inr chain') \<and>
               changeArrayValue arrayChangeValue chain name accessors v =
                 (case resolveValueThisScopeOnly (chain ! k) name of
                    Object array \<Rightarrow>
                      (case arrayChangeValue array accessors v of
                         Inl e \<Rightarrow> Inl e
                       | Inr array' \<Rightarrow>
                           Inr (chain[k := (chain ! k)
                                  \<lparr>valueTable := cimSet (valueTable (chain ! k)) name array'\<rparr>]))
                  | _ \<Rightarrow> Inl (TypeError ''changeValue''))))"
proof (intro conjI impI)
  show "findScope chain name = None \<longleftrightarrow> (\<forall>s \<in> set chain. \<not> cimHas (scopeTable s) name)"
    using assms by (rule findScope_None_iff)
next
  assume "\<forall>s \<in> set chain. \<not> cimHas (scopeTable s) name"
  then have "findScope chain name = None"
    using assms by (simp add: findScope_None_iff)
  then show "changeValue chain name v = Inl (TypeError ''value'')"
    and "changeArrayValue arrayChangeValue chain name accessors v =
              Inl (TypeError ''resolveValueThisScopeOnly'')"
    by (simp_all add: changeValue_def changeArrayValue_def)
next
  assume "\<exists>s \<in> set chain. cimHas (scopeTable s) name"
  with assms obtain k where k: "findScope chain name = Some k"
    by (rule findScope_declared)
  with assms have "k < length chain"
    by (simp add: findScope_Some_iff)
  with k show "\<exists>k. findScope chain name = Some k \<and> k < length chain \<and>
               (\<exists>chain'. changeValue chain name v = Inr chain') \<and>
               changeArrayValue arrayChangeValue chain name accessors v =
                 (case resolveValueThisScopeOnly (chain ! k) name of
                    Object array \<Rightarrow>
                      (case arrayChangeValue array accessors v of
                         Inl e \<Rightarrow> Inl e
                       | Inr array' \<Rightarrow>
                           Inr (chain[k := (chain ! k)
                                  \<lparr>valueTable := cimSet (valueTable (chain ! k)) name array'\<rparr>]))
                  | _ \<Rightarrow> Inl (TypeError ''changeValue''))"
    by (simp add: changeValue_def changeArrayValue_def)
qed

text \<open>
  The chain of an empty procedure scope below a global scope that declares \<^verbatim>\<open>x\<close>: writing
  \<^verbatim>\<open>y\<close> crashes, writing \<^verbatim>\<open>x\<close> succeeds.
\<close>

theorem changeValue_undeclared_crashes_witness:
  "changeValue
     [\<lparr>scopeName = ''p'', scopeTable = Map.empty, valueTable = Map.empty\<rparr>,
      \<lparr>scopeName = ''global'',
       scopeTable = [''x'' \<mapsto> VariableSymbol ''x'' \<lparr>defaultValue = Some (0::int)\<rparr>],
       valueTable = [''x'' \<mapsto> 0]\<rparr>] ''y'' 5 = Inl (TypeError ''value'') \<and>
   changeArrayValue (\<lambda>array accessors v. Inr v)
     [\<lparr>scopeName = ''p'', scopeTable = Map.empty, valueTable = Map.empty\<rparr>,
      \<lparr>scopeName = ''global'',
       scopeTable = [''x'' \<mapsto> VariableSymbol ''x'' \<lparr>defaultValue = Some (0::int)\<rparr>],
       valueTable = [''x'' \<mapsto> 0]\<rparr>] ''y'' [1] 5 = Inl (TypeError ''resolveValueThisScopeOnly'') \<and>
   (\<exists>chain'. changeValue
     [\<lparr>scopeName = ''p'', scopeTable = Map.empty, valueTable = Map.empty\<rparr>,
      \<lparr>scopeName = ''global'',
       scopeTable = [''x'' \<mapsto> VariableSymbol ''x'' \<lparr>defaultValue = Some (0::int)\<rparr>],
       valueTable = [''x'' \<mapsto> 0]\<rparr>] ''x'' 5 = Inr chain')"
proof -
  let ?c = "[\<lparr>scopeName = ''p'', scopeTable = Map.empty, valueTable = Map.empty\<rparr>,
      \<lparr>scopeName = ''global'',
       scopeTable = [''x'' \<mapsto> VariableSymbol ''x'' \<lparr>defaultValue = Some (0::int)\<rparr>],
       valueTable = [''x'' \<mapsto> 0]\<rparr>]"
  have ne: "?c \<noteq> []" by simp
  have undeclared: "\<forall>s \<in> set ?c. \<not> cimHas (scopeTable s) ''y''"
    by (simp add: cimHas_def toLowerCase_examples)
  have declared: "\<exists>s \<in> set ?c. cimHas (scopeTable s) ''x''"
    by (simp add: cimHas_def toLowerCase_examples)
  from changeValue_undeclared_crashes [OF ne, of "''y''" 5 "\<lambda>array accessors v. Inr v" "[1]"]
    undeclared
  have a: "changeValue ?c ''y'' 5 = Inl (TypeError ''value'') \<and>
      changeArrayValue (\<lambda>array accessors v. Inr v) ?c ''y'' [1] 5 =
        Inl (TypeError ''resolveValueThisScopeOnly'')"
    by blast
  from changeValue_undeclared_crashes [OF ne, of "''x''" 5 "\<lambda>array accessors v. Inr v" "[1]"]
    declared
  have b: "\<exists>chain'. changeValue ?c ''x'' 5 = Inr chain'"
    by blast
  from a b show ?thesis by blast
qed

section \<open>Properties of the tree of AST nodes\<close>

lemma findIndex_range: "findIndex test xs = -1 \<or> (0 \<le> findIndex test xs \<and> findIndex test xs < int (length xs))"
  by (induction xs) (auto simp: Let_def)

lemma findIndex_none: "findIndex test xs = -1 \<longleftrightarrow> (\<forall>x \<in> set xs. \<not> test x)"
proof (induction xs)
  case Nil
  then show ?case by simp
next
  case (Cons x xs)
  have "findIndex test xs \<noteq> -2"
    using findIndex_range [of test xs] by auto
  with Cons show ?case by (auto simp: Let_def)
qed

lemma findIndex_found:
  assumes "findIndex test xs \<noteq> -1"
  shows "nat (findIndex test xs) < length xs \<and> test (xs ! nat (findIndex test xs)) \<and>
         (\<forall>j < nat (findIndex test xs). \<not> test (xs ! j))"
  using assms
proof (induction xs)
  case Nil
  then show ?case by simp
next
  case (Cons x xs)
  show ?case
  proof (cases "test x")
    case True
    then show ?thesis by simp
  next
    case False
    with Cons.prems have ne: "findIndex test xs \<noteq> -1"
      by (auto simp: Let_def)
    then have pos: "0 \<le> findIndex test xs"
      using findIndex_range [of test xs] by auto
    then have eq: "nat (findIndex test (x # xs)) = Suc (nat (findIndex test xs))"
      using False ne by (simp add: Let_def nat_add_distrib)
    from Cons.IH [OF ne] False show ?thesis
      unfolding eq by (auto simp: less_Suc_eq_0_disj)
  qed
qed

text \<open>
  What \<^verbatim>\<open>replace\<close> does when the receiver has a parent that lists it: the first
  position at which the parent lists the receiver gets the new node, and the receiver loses
  its parent. No other field of any node changes; in particular the new node keeps the
  parent link it had.
\<close>

lemma replace_effect:
  assumes "parent (h this) = Some p" and "this \<in> set (children (h p))"
  shows "\<exists>i h'. i < length (children (h p)) \<and> children (h p) ! i = this \<and>
           (\<forall>j<i. children (h p) ! j \<noteq> this) \<and>
           replace h this newNode = Inr h' \<and>
           children (h' p) = (children (h p))[i := newNode] \<and>
           (\<forall>x. x \<noteq> p \<longrightarrow> children (h' x) = children (h x)) \<and>
           (\<forall>x. parent (h' x) = (if x = this then None else parent (h x)))"
proof -
  let ?index = "findIndex (\<lambda>n. n = this) (children (h p))"
  let ?h1 = "h(p := (h p)\<lparr>children := (children (h p))[nat ?index := newNode]\<rparr>)"
  let ?h' = "?h1(this := (?h1 this)\<lparr>parent := None\<rparr>)"
  from assms(2) have ne: "?index \<noteq> -1"
    by (auto simp: findIndex_none)
  from findIndex_found [OF ne]
  have i: "nat ?index < length (children (h p))" "children (h p) ! nat ?index = this"
    "\<forall>j < nat ?index. children (h p) ! j \<noteq> this"
    by auto
  have r: "replace h this newNode = Inr ?h'"
    using assms(1) ne by (simp add: replace_def Let_def)
  have c: "children (?h' p) = (children (h p))[nat ?index := newNode]"
    by simp
  have o: "\<forall>x. x \<noteq> p \<longrightarrow> children (?h' x) = children (h x)"
    by simp
  have q: "\<forall>x. parent (?h' x) = (if x = this then None else parent (h x))"
    by simp
  from i r c o q show ?thesis
    by (intro exI [of _ "nat ?index"] exI [of _ ?h']) (simp only: simp_thms)
qed

text \<open>
  C2. A parent 0 with the single child 1, built by \<^verbatim>\<open>addChild\<close>, and a new node 2 that has
  no parent. After node 1 is replaced by node 2, node 0 lists node 2 and node 1 has no
  parent, but node 2 still has no parent: its parent link is not the former parent 0. Had
  node 2 been added with \<^verbatim>\<open>addChild\<close>, its parent would be node 0.
\<close>

theorem replace_leaves_new_node_without_parent:
  "(\<exists>h'. replace (addChild (\<lambda>a. \<lparr>children = [], parent = None\<rparr>) 0 [1]) 1 2 = Inr h' \<and>
      children (h' 0) = [2] \<and> parent (h' 1) = None \<and> parent (h' 2) = None) \<and>
   children (addChild (\<lambda>a. \<lparr>children = [], parent = None\<rparr>) 0 [1] 0) = [1] \<and>
   parent (addChild (\<lambda>a. \<lparr>children = [], parent = None\<rparr>) 0 [1] 1) = Some 0 \<and>
   parent (addChild (\<lambda>a. \<lparr>children = [], parent = None\<rparr>) 0 [1] 2) = None \<and>
   parent (addChild (\<lambda>a. \<lparr>children = [], parent = None\<rparr>) 0 [2] 2) = Some 0"
  by (simp add: replace_def addChild_def addChild1_def Let_def)

section \<open>Properties of the parser\<close>

subsection \<open>Results and consumed tokens\<close>

lemma andThen_ok [simp]: "andThen (ok x) f = f x"
  by (simp add: andThen_def ok_def)

lemma andThen_throw [simp]: "andThen (throw e) f = throw e"
  by (simp add: andThen_def throw_def)

lemma andThen_None [simp]: "andThen None f = None"
  by (simp add: andThen_def)

lemma result_distinct [simp]:
  "ok x \<noteq> None" "None \<noteq> ok x" "ok x \<noteq> throw e" "throw e \<noteq> ok x"
  "throw e \<noteq> None" "None \<noteq> throw e"
  by (simp_all add: ok_def throw_def)

lemma result_inject [simp]: "(ok x = ok y) = (x = y)" "(throw e = throw e') = (e = e')"
  by (simp_all add: ok_def throw_def)

lemma eat_match:
  "kind a = K \<Longrightarrow>
   eat \<lparr>currentToken = a, previousToken = pv, lexer = x ## s\<rparr> K message previousTokenThrow =
     ok \<lparr>currentToken = x, previousToken = Some a, lexer = s\<rparr>"
  by (simp add: eat_def)

lemma operators_disjoint:
  "k \<in> set expressionOperators \<Longrightarrow> k \<notin> set termOperators \<and> k \<notin> set comparisonOperators"
  "k \<in> set termOperators \<Longrightarrow> k \<notin> set expressionOperators \<and> k \<notin> set comparisonOperators"
  "k \<in> set comparisonOperators \<Longrightarrow> k \<notin> set expressionOperators \<and> k \<notin> set termOperators"
  by (auto simp: expressionOperators_def termOperators_def comparisonOperators_def)

lemma binaryOperators_iff:
  "k \<in> set binaryOperators \<longleftrightarrow>
     k \<in> set expressionOperators \<or> k \<in> set termOperators \<or> k \<in> set comparisonOperators"
  by (auto simp: binaryOperators_def)

subsection \<open>The three binary rules\<close>

text \<open>
  Each rule parses one operand with the next tighter rule. If the token after it is none of
  the rule's operators, that operand is the result; if it is one of them, the right operand
  is parsed with the rule itself, once.
\<close>

lemma factor_atom:
  assumes "kind a \<in> set atomKinds"
  shows "factor (Suc n) \<lparr>currentToken = a, previousToken = pv, lexer = x ## s\<rparr> =
         ok (atomAST a, \<lparr>currentToken = x, previousToken = Some a, lexer = s\<rparr>)"
  using assms
  by (auto simp: atomKinds_def atomAST_def eat_match variable_def Let_def)

lemma comparison_stop:
  assumes "factor n p = ok (l, p1)" and "kind (currentToken p1) \<notin> set comparisonOperators"
  shows "comparison (Suc n) p = ok (l, p1)"
  using assms by (simp add: comparisonOperators_def Let_def)

lemma comparison_step:
  assumes "factor n p = ok (l, \<lparr>currentToken = op, previousToken = pv, lexer = x ## s\<rparr>)"
    and "kind op \<in> set comparisonOperators"
    and "comparison n \<lparr>currentToken = x, previousToken = Some op, lexer = s\<rparr> = ok (r, p2)"
  shows "comparison (Suc n) p = ok (binaryNode op l r, p2)"
  using assms by (auto simp: comparisonOperators_def Let_def eat_match binaryNode_def)

lemma term_stop:
  assumes "comparison n p = ok (l, p1)" and "kind (currentToken p1) \<notin> set termOperators"
  shows "term' (Suc n) p = ok (l, p1)"
  using assms by (simp add: termOperators_def Let_def)

lemma term_step:
  assumes "comparison n p = ok (l, \<lparr>currentToken = op, previousToken = pv, lexer = x ## s\<rparr>)"
    and "kind op \<in> set termOperators"
    and "term' n \<lparr>currentToken = x, previousToken = Some op, lexer = s\<rparr> = ok (r, p2)"
  shows "term' (Suc n) p = ok (binaryNode op l r, p2)"
  using assms by (auto simp: termOperators_def Let_def eat_match binaryNode_def)

lemma expression_stop:
  assumes "term' n p = ok (l, p1)" and "kind (currentToken p1) \<notin> set expressionOperators"
  shows "expression (Suc n) p = ok (l, p1)"
  using assms by (simp add: expressionOperators_def Let_def)

lemma expression_step:
  assumes "term' n p = ok (l, \<lparr>currentToken = op, previousToken = pv, lexer = x ## s\<rparr>)"
    and "kind op \<in> set expressionOperators"
    and "expression n \<lparr>currentToken = x, previousToken = Some op, lexer = s\<rparr> = ok (r, p2)"
  shows "expression (Suc n) p = ok (binaryNode op l r, p2)"
  using assms by (auto simp: expressionOperators_def Let_def eat_match binaryNode_def)

text \<open>One operand, then a token that continues no rule of the level.\<close>

lemma comparison_atom:
  assumes "kind a \<in> set atomKinds" and "kind x \<notin> set comparisonOperators" and "2 \<le> k"
  shows "comparison k \<lparr>currentToken = a, previousToken = pv, lexer = x ## s\<rparr> =
         ok (atomAST a, \<lparr>currentToken = x, previousToken = Some a, lexer = s\<rparr>)"
proof -
  from \<open>2 \<le> k\<close> obtain n where k: "k = Suc (Suc n)"
    by (cases k; cases "k - 1") auto
  show ?thesis
    unfolding k by (rule comparison_stop [OF factor_atom]) (use assms in simp_all)
qed

lemma term_atom:
  assumes "kind a \<in> set atomKinds" and "kind x \<notin> set comparisonOperators"
    and "kind x \<notin> set termOperators" and "3 \<le> k"
  shows "term' k \<lparr>currentToken = a, previousToken = pv, lexer = x ## s\<rparr> =
         ok (atomAST a, \<lparr>currentToken = x, previousToken = Some a, lexer = s\<rparr>)"
proof -
  from \<open>3 \<le> k\<close> obtain n where k: "k = Suc n" and n: "2 \<le> n"
    by (cases k) auto
  show ?thesis
    unfolding k by (rule term_stop [OF comparison_atom]) (use assms n in simp_all)
qed

lemma expression_atom:
  assumes "kind a \<in> set atomKinds" and "kind x \<notin> set binaryOperators" and "4 \<le> k"
  shows "expression k \<lparr>currentToken = a, previousToken = pv, lexer = x ## s\<rparr> =
         ok (atomAST a, \<lparr>currentToken = x, previousToken = Some a, lexer = s\<rparr>)"
proof -
  from \<open>4 \<le> k\<close> obtain n where k: "k = Suc n" and n: "3 \<le> n"
    by (cases k) auto
  show ?thesis
    unfolding k
    by (rule expression_stop [OF term_atom])
      (use assms n in \<open>simp_all add: binaryOperators_iff\<close>)
qed

subsection \<open>Statements\<close>

text \<open>
  C9. When the current token starts none of the other alternatives, \<^verbatim>\<open>statement\<close> answers
  an \<^verbatim>\<open>Empty\<close> node at the current token's position and the parser's state is the one it
  started from: current token, previous token and the tokens still in the lexer (so also
  the lookahead) are unchanged. This holds for every depth above 0.
\<close>

theorem statement_empty_consumes_nothing:
  assumes "kind (currentToken p) \<notin>
             {BeginToken, IdToken, IfToken, ForToken, WhileToken, RepeatToken}"
    and "0 < k"
  shows "statement k p = ok (EmptyAST (positionOf (currentToken p)), p)"
proof -
  from \<open>0 < k\<close> obtain n where "k = Suc n"
    by (cases k) auto
  with assms(1) show ?thesis
    by (simp add: empty'_def)
qed

text \<open>At \<^verbatim>\<open>end\<close>, with \<^verbatim>\<open>.\<close> as the lookahead, the statement is empty and nothing moves.\<close>

theorem statement_empty_consumes_nothing_witness:
  "statement 1
     \<lparr>currentToken = mkToken EndToken ''end'' 3 0 3,
      previousToken = Some (mkToken SemiToken '';'' 2 9 10),
      lexer = mkToken DotToken ''.'' 3 3 4 ## sconst (mkToken EofToken [] 3 4 4)\<rparr> =
   ok (EmptyAST (at 3 0 3),
       \<lparr>currentToken = mkToken EndToken ''end'' 3 0 3,
        previousToken = Some (mkToken SemiToken '';'' 2 9 10),
        lexer = mkToken DotToken ''.'' 3 3 4 ## sconst (mkToken EofToken [] 3 4 4)\<rparr>)"
proof -
  let ?p = "\<lparr>currentToken = mkToken EndToken ''end'' 3 0 3,
      previousToken = Some (mkToken SemiToken '';'' 2 9 10),
      lexer = mkToken DotToken ''.'' 3 3 4 ## sconst (mkToken EofToken [] 3 4 4)\<rparr>"
  have "kind (currentToken ?p) \<notin>
          {BeginToken, IdToken, IfToken, ForToken, WhileToken, RepeatToken}"
    by (simp add: mkToken_def)
  from statement_empty_consumes_nothing [OF this, of 1]
  show ?thesis
    by (simp add: mkToken_def positionOf_def at_def)
qed

lemma assignmentExpression_atom:
  assumes "kind x = IdToken" and "kind g = AssignToken" and "kind e \<in> set atomKinds"
    and "kind y \<notin> set binaryOperators" and "4 \<le> k"
  shows "assignmentExpression k
           \<lparr>currentToken = x, previousToken = pv, lexer = g ## e ## y ## s\<rparr> =
         ok (assignmentNode x g e, \<lparr>currentToken = y, previousToken = Some e, lexer = s\<rparr>)"
proof -
  have "expression k \<lparr>currentToken = e, previousToken = Some g, lexer = y ## s\<rparr> =
        ok (atomAST e, \<lparr>currentToken = y, previousToken = Some e, lexer = s\<rparr>)"
    using assms(3-5) by (rule expression_atom)
  with assms(1,2) show ?thesis
    by (simp add: assignmentExpression_def variable_def eat_match Let_def assignmentNode_def)
qed

lemma statement_assignment:
  assumes "kind x = IdToken" and "kind g = AssignToken" and "kind e \<in> set atomKinds"
    and "kind y \<notin> set binaryOperators" and "5 \<le> k"
  shows "statement k \<lparr>currentToken = x, previousToken = pv, lexer = g ## e ## y ## s\<rparr> =
         ok (assignmentNode x g e, \<lparr>currentToken = y, previousToken = Some e, lexer = s\<rparr>)"
proof -
  from \<open>5 \<le> k\<close> obtain n where k: "k = Suc n" and n: "4 \<le> n"
    by (cases k) auto
  have "assignmentExpression n
           \<lparr>currentToken = x, previousToken = pv, lexer = g ## e ## y ## s\<rparr> =
         ok (assignmentNode x g e, \<lparr>currentToken = y, previousToken = Some e, lexer = s\<rparr>)"
    using assms(1-4) n by (rule assignmentExpression_atom)
  with assms(1,2) show ?thesis
    unfolding k by (simp add: peek_def)
qed

lemma statementListLoop_stop:
  assumes "kind (currentToken p) \<noteq> SemiToken" and "0 < k"
  shows "statementListLoop k statements p = ok (statements, p)"
proof -
  from \<open>0 < k\<close> obtain n where "k = Suc n"
    by (cases k) auto
  with assms(1) show ?thesis
    by simp
qed

subsection \<open>Else-chains\<close>

lemma then_else_not_binary:
  "ThenToken \<notin> set binaryOperators" "ElseToken \<notin> set binaryOperators"
  by (simp_all add: binaryOperators_def expressionOperators_def termOperators_def
      comparisonOperators_def)

lemma if_assignment:
  assumes "kind i = IfToken" and "kind a \<in> set atomKinds" and "kind th = ThenToken"
    and "kind x = IdToken" and "kind g = AssignToken" and "kind e \<in> set atomKinds"
    and "kind y \<notin> set binaryOperators" and "6 \<le> k"
  shows "if' k \<lparr>currentToken = i, previousToken = pv,
                 lexer = a ## th ## x ## g ## e ## y ## s\<rparr> =
         ok (IfAST (positionOf i) (atomAST a) (assignmentNode x g e) None,
             \<lparr>currentToken = y, previousToken = Some e, lexer = s\<rparr>)"
proof -
  from \<open>6 \<le> k\<close> obtain n where k: "k = Suc n" and n: "5 \<le> n"
    by (cases k) auto
  have th: "kind th \<notin> set binaryOperators"
    using assms(3) by (simp add: then_else_not_binary)
  have c: "expression n \<lparr>currentToken = a, previousToken = Some i,
                lexer = th ## x ## g ## e ## y ## s\<rparr> =
           ok (atomAST a, \<lparr>currentToken = th, previousToken = Some a,
                lexer = x ## g ## e ## y ## s\<rparr>)"
    by (rule expression_atom) (use assms(2) th n in simp_all)
  have b: "statement n \<lparr>currentToken = x, previousToken = Some th,
                lexer = g ## e ## y ## s\<rparr> =
           ok (assignmentNode x g e, \<lparr>currentToken = y, previousToken = Some e, lexer = s\<rparr>)"
    using assms(4-7) n by (rule statement_assignment)
  show ?thesis
    unfolding k using assms(1,3) c b by (simp add: eat_match Let_def)
qed

lemma ifStatementLoop_stop:
  assumes "kind (currentToken p) \<noteq> ElseToken" and "0 < k"
  shows "ifStatementLoop k currentIf p = ok (currentIf, p)"
proof -
  from \<open>0 < k\<close> obtain n where "k = Suc n"
    by (cases k) auto
  with assms(1) show ?thesis
    by simp
qed

lemma ifStatementLoop_else_if:
  assumes "kind el = ElseToken" and "kind i = IfToken"
    and "if' n \<lparr>currentToken = i, previousToken = Some el, lexer = s\<rparr> = ok (newIf, p2)"
    and "ifStatementLoop n newIf p2 = ok (newIf', p3)"
  shows "ifStatementLoop (Suc n) currentIf
           \<lparr>currentToken = el, previousToken = pv, lexer = i ## s\<rparr> =
         ok (addNext currentIf newIf', p3)"
  using assms by (simp add: eat_match)

lemma ifStatementLoop_else_statement:
  assumes "kind el = ElseToken" and "kind x \<noteq> IfToken"
    and "statement n \<lparr>currentToken = x, previousToken = Some el, lexer = s\<rparr> =
         ok (alternative, p2)"
    and "ifStatementLoop n (addNext currentIf alternative) p2 = ok (result, p3)"
  shows "ifStatementLoop (Suc n) currentIf
           \<lparr>currentToken = el, previousToken = pv, lexer = x ## s\<rparr> =
         ok (result, p3)"
  using assms by (simp add: eat_match)

text \<open>
  C8. The tokens of \<^verbatim>\<open>if a then x1 := e1 else if b then x2 := e2 else x3 := e3\<close>, with
  one-token conditions and right-hand sides, followed by a token that is neither \<^verbatim>\<open>else\<close>
  nor a binary operator: the parser returns the first \<^verbatim>\<open>If\<close>, whose \<^verbatim>\<open>next\<close> is the second
  \<^verbatim>\<open>If\<close>, whose \<^verbatim>\<open>next\<close> is the last statement. Followed along \<^verbatim>\<open>next\<close>, the alternatives
  are these three, in the order of the source.
\<close>

theorem ifStatement_builds_chain:
  assumes "kind i1 = IfToken" and "kind a \<in> set atomKinds" and "kind th1 = ThenToken"
    and "kind x1 = IdToken" and "kind g1 = AssignToken" and "kind e1 \<in> set atomKinds"
    and "kind el1 = ElseToken"
    and "kind i2 = IfToken" and "kind b \<in> set atomKinds" and "kind th2 = ThenToken"
    and "kind x2 = IdToken" and "kind g2 = AssignToken" and "kind e2 \<in> set atomKinds"
    and "kind el2 = ElseToken"
    and "kind x3 = IdToken" and "kind g3 = AssignToken" and "kind e3 \<in> set atomKinds"
    and "kind y \<notin> set binaryOperators" and "kind y \<noteq> ElseToken" and "8 \<le> k"
  shows "ifStatement k
           \<lparr>currentToken = i1, previousToken = pv,
            lexer = a ## th1 ## x1 ## g1 ## e1 ## el1 ##
                    i2 ## b ## th2 ## x2 ## g2 ## e2 ## el2 ##
                    x3 ## g3 ## e3 ## y ## s\<rparr> =
           ok (IfAST (positionOf i1) (atomAST a) (assignmentNode x1 g1 e1)
                 (Some (IfAST (positionOf i2) (atomAST b) (assignmentNode x2 g2 e2)
                    (Some (assignmentNode x3 g3 e3)))),
               \<lparr>currentToken = y, previousToken = Some e3, lexer = s\<rparr>) \<and>
         alternatives
           (IfAST (positionOf i1) (atomAST a) (assignmentNode x1 g1 e1)
              (Some (IfAST (positionOf i2) (atomAST b) (assignmentNode x2 g2 e2)
                 (Some (assignmentNode x3 g3 e3))))) =
           [IfAST (positionOf i1) (atomAST a) (assignmentNode x1 g1 e1) None,
            IfAST (positionOf i2) (atomAST b) (assignmentNode x2 g2 e2) None,
            assignmentNode x3 g3 e3]"
proof -
  let ?s3 = "x3 ## g3 ## e3 ## y ## s"
  let ?s2 = "b ## th2 ## x2 ## g2 ## e2 ## el2 ## ?s3"
  let ?first = "IfAST (positionOf i1) (atomAST a) (assignmentNode x1 g1 e1) None"
  let ?second = "IfAST (positionOf i2) (atomAST b) (assignmentNode x2 g2 e2) None"
  let ?third = "assignmentNode x3 g3 e3"
  let ?end = "\<lparr>currentToken = y, previousToken = Some e3, lexer = s\<rparr>"
  from \<open>8 \<le> k\<close> obtain n where k: "k = Suc (Suc (Suc n))" and n: "5 \<le> n"
    by (cases k; cases "k - 1"; cases "k - 2") auto
  have el: "kind el1 \<notin> set binaryOperators" "kind el2 \<notin> set binaryOperators"
    using assms(7,14) by (simp_all add: then_else_not_binary)
  have x3: "kind x3 \<noteq> IfToken"
    using assms(15) by simp
  have first: "if' (Suc (Suc n))
                 \<lparr>currentToken = i1, previousToken = pv,
                  lexer = a ## th1 ## x1 ## g1 ## e1 ## el1 ## i2 ## ?s2\<rparr> =
               ok (?first, \<lparr>currentToken = el1, previousToken = Some e1, lexer = i2 ## ?s2\<rparr>)"
    by (rule if_assignment) (use assms(1-6) el n in simp_all)
  have second: "if' (Suc n) \<lparr>currentToken = i2, previousToken = Some el1, lexer = ?s2\<rparr> =
               ok (?second, \<lparr>currentToken = el2, previousToken = Some e2, lexer = ?s3\<rparr>)"
    by (rule if_assignment) (use assms(8-13) el n in simp_all)
  have third: "statement n
                 \<lparr>currentToken = x3, previousToken = Some el2, lexer = g3 ## e3 ## y ## s\<rparr> =
               ok (?third, ?end)"
    using assms(15-18) n by (rule statement_assignment)
  have stop: "ifStatementLoop n (addNext ?second ?third) ?end =
              ok (addNext ?second ?third, ?end)"
    by (rule ifStatementLoop_stop) (use assms(19) n in simp_all)
  have inner: "ifStatementLoop (Suc n) ?second
                 \<lparr>currentToken = el2, previousToken = Some e2, lexer = ?s3\<rparr> =
               ok (addNext ?second ?third, ?end)"
    using assms(14) x3 third stop by (rule ifStatementLoop_else_statement)
  have outer: "ifStatementLoop (Suc (Suc n)) ?first
                 \<lparr>currentToken = el1, previousToken = Some e1, lexer = i2 ## ?s2\<rparr> =
               ok (addNext ?first (addNext ?second ?third), ?end)"
    using assms(7,8) second inner by (rule ifStatementLoop_else_if)
  have "ifStatement k
           \<lparr>currentToken = i1, previousToken = pv,
            lexer = a ## th1 ## x1 ## g1 ## e1 ## el1 ## i2 ## ?s2\<rparr> =
        ok (addNext ?first (addNext ?second ?third), ?end)"
    unfolding k using first outer by simp
  moreover have "alternatives
           (IfAST (positionOf i1) (atomAST a) (assignmentNode x1 g1 e1)
              (Some (IfAST (positionOf i2) (atomAST b) (assignmentNode x2 g2 e2)
                 (Some ?third)))) = [?first, ?second, ?third]"
    by (simp add: assignmentNode_def)
  ultimately show ?thesis
    by simp
qed

text \<open>
  The tokens of \<^verbatim>\<open>if a then x := 1 else if b then y := 2 else z := 3\<close>, then the end of
  input.
\<close>

theorem ifStatement_builds_chain_witness:
  "ifStatement 8
     \<lparr>currentToken = mkToken IfToken ''if'' 1 0 2, previousToken = None,
      lexer = mkToken IdToken ''a'' 1 3 4 ## mkToken ThenToken ''then'' 1 5 9 ##
        mkToken IdToken ''x'' 1 10 11 ## mkToken AssignToken '':='' 1 12 14 ##
        mkToken IntegerConstToken ''1'' 1 15 16 ## mkToken ElseToken ''else'' 1 17 21 ##
        mkToken IfToken ''if'' 1 22 24 ## mkToken IdToken ''b'' 1 25 26 ##
        mkToken ThenToken ''then'' 1 27 31 ## mkToken IdToken ''y'' 1 32 33 ##
        mkToken AssignToken '':='' 1 34 36 ## mkToken IntegerConstToken ''2'' 1 37 38 ##
        mkToken ElseToken ''else'' 1 39 43 ## mkToken IdToken ''z'' 1 44 45 ##
        mkToken AssignToken '':='' 1 46 48 ## mkToken IntegerConstToken ''3'' 1 49 50 ##
        mkToken EofToken [] 1 50 50 ## sconst (mkToken EofToken [] 1 50 50)\<rparr> =
   ok (IfAST (at 1 0 2) (VariableAST (at 1 3 4) ''a'')
         (AssignmentAST (at 1 12 14) (VariableAST (at 1 10 11) ''x'')
            (IntegerConstantAST (at 1 15 16) ''1''))
         (Some (IfAST (at 1 22 24) (VariableAST (at 1 25 26) ''b'')
            (AssignmentAST (at 1 34 36) (VariableAST (at 1 32 33) ''y'')
               (IntegerConstantAST (at 1 37 38) ''2''))
            (Some (AssignmentAST (at 1 46 48) (VariableAST (at 1 44 45) ''z'')
               (IntegerConstantAST (at 1 49 50) ''3''))))),
       \<lparr>currentToken = mkToken EofToken [] 1 50 50,
        previousToken = Some (mkToken IntegerConstToken ''3'' 1 49 50),
        lexer = sconst (mkToken EofToken [] 1 50 50)\<rparr>)"
proof -
  have kinds: "kind (mkToken k v l c1 c2) = k" for k v l c1 c2
    by (simp add: mkToken_def)
  have hyps: "kind (mkToken IfToken ''if'' 1 0 2) = IfToken"
    "kind (mkToken IdToken ''a'' 1 3 4) \<in> set atomKinds"
    "kind (mkToken ThenToken ''then'' 1 5 9) = ThenToken"
    "kind (mkToken IdToken ''x'' 1 10 11) = IdToken"
    "kind (mkToken AssignToken '':='' 1 12 14) = AssignToken"
    "kind (mkToken IntegerConstToken ''1'' 1 15 16) \<in> set atomKinds"
    "kind (mkToken ElseToken ''else'' 1 17 21) = ElseToken"
    "kind (mkToken IfToken ''if'' 1 22 24) = IfToken"
    "kind (mkToken IdToken ''b'' 1 25 26) \<in> set atomKinds"
    "kind (mkToken ThenToken ''then'' 1 27 31) = ThenToken"
    "kind (mkToken IdToken ''y'' 1 32 33) = IdToken"
    "kind (mkToken AssignToken '':='' 1 34 36) = AssignToken"
    "kind (mkToken IntegerConstToken ''2'' 1 37 38) \<in> set atomKinds"
    "kind (mkToken ElseToken ''else'' 1 39 43) = ElseToken"
    "kind (mkToken IdToken ''z'' 1 44 45) = IdToken"
    "kind (mkToken AssignToken '':='' 1 46 48) = AssignToken"
    "kind (mkToken IntegerConstToken ''3'' 1 49 50) \<in> set atomKinds"
    "kind (mkToken EofToken [] 1 50 50) \<notin> set binaryOperators"
    "kind (mkToken EofToken [] 1 50 50) \<noteq> ElseToken"
    "(8::nat) \<le> 8"
    by (simp_all add: kinds atomKinds_def binaryOperators_def expressionOperators_def
        termOperators_def comparisonOperators_def)
  from ifStatement_builds_chain [OF hyps, of None "sconst (mkToken EofToken [] 1 50 50)"]
  have "ifStatement 8
     \<lparr>currentToken = mkToken IfToken ''if'' 1 0 2, previousToken = None,
      lexer = mkToken IdToken ''a'' 1 3 4 ## mkToken ThenToken ''then'' 1 5 9 ##
        mkToken IdToken ''x'' 1 10 11 ## mkToken AssignToken '':='' 1 12 14 ##
        mkToken IntegerConstToken ''1'' 1 15 16 ## mkToken ElseToken ''else'' 1 17 21 ##
        mkToken IfToken ''if'' 1 22 24 ## mkToken IdToken ''b'' 1 25 26 ##
        mkToken ThenToken ''then'' 1 27 31 ## mkToken IdToken ''y'' 1 32 33 ##
        mkToken AssignToken '':='' 1 34 36 ## mkToken IntegerConstToken ''2'' 1 37 38 ##
        mkToken ElseToken ''else'' 1 39 43 ## mkToken IdToken ''z'' 1 44 45 ##
        mkToken AssignToken '':='' 1 46 48 ## mkToken IntegerConstToken ''3'' 1 49 50 ##
        mkToken EofToken [] 1 50 50 ## sconst (mkToken EofToken [] 1 50 50)\<rparr> =
      ok (IfAST (positionOf (mkToken IfToken ''if'' 1 0 2))
            (atomAST (mkToken IdToken ''a'' 1 3 4))
            (assignmentNode (mkToken IdToken ''x'' 1 10 11)
               (mkToken AssignToken '':='' 1 12 14) (mkToken IntegerConstToken ''1'' 1 15 16))
            (Some (IfAST (positionOf (mkToken IfToken ''if'' 1 22 24))
               (atomAST (mkToken IdToken ''b'' 1 25 26))
               (assignmentNode (mkToken IdToken ''y'' 1 32 33)
                  (mkToken AssignToken '':='' 1 34 36)
                  (mkToken IntegerConstToken ''2'' 1 37 38))
               (Some (assignmentNode (mkToken IdToken ''z'' 1 44 45)
                  (mkToken AssignToken '':='' 1 46 48)
                  (mkToken IntegerConstToken ''3'' 1 49 50))))),
          \<lparr>currentToken = mkToken EofToken [] 1 50 50,
           previousToken = Some (mkToken IntegerConstToken ''3'' 1 49 50),
           lexer = sconst (mkToken EofToken [] 1 50 50)\<rparr>)"
    by (rule conjunct1)
  then show ?thesis
    by (simp add: assignmentNode_def atomAST_def kinds)
      (simp add: mkToken_def at_def positionOf_def)
qed

subsection \<open>The previously consumed token\<close>

lemma andThen_eq_ok:
  "andThen m f = ok y \<longleftrightarrow> (\<exists>x. m = ok x \<and> f x = ok y)"
  by (auto simp: andThen_def ok_def split: option.splits sum.splits)

lemma eat_previous:
  "eat p K message previousTokenThrow = ok p' \<Longrightarrow> previousToken p' = Some (currentToken p)"
  by (auto simp: eat_def throw_def ok_def split: if_splits sum.splits)

lemma variable_previous:
  "variable p = ok (node, p') \<Longrightarrow> previousToken p' \<noteq> None"
  by (auto simp: variable_def Let_def andThen_eq_ok dest!: eat_previous)

lemma expression_previous:
  "(\<forall>p r p'. expression n p = ok (r, p') \<longrightarrow> previousToken p' \<noteq> None) \<and>
   (\<forall>p r p'. term' n p = ok (r, p') \<longrightarrow> previousToken p' \<noteq> None) \<and>
   (\<forall>p r p'. comparison n p = ok (r, p') \<longrightarrow> previousToken p' \<noteq> None) \<and>
   (\<forall>p r p'. factor n p = ok (r, p') \<longrightarrow> previousToken p' \<noteq> None)"
proof (induction n)
  case 0
  show ?case by simp
next
  case (Suc n)
  have e: "\<forall>p r p'. expression (Suc n) p = ok (r, p') \<longrightarrow> previousToken p' \<noteq> None"
    using Suc by (auto simp: Let_def andThen_eq_ok split: if_splits)
  have t: "\<forall>p r p'. term' (Suc n) p = ok (r, p') \<longrightarrow> previousToken p' \<noteq> None"
    using Suc by (auto simp: Let_def andThen_eq_ok split: if_splits)
  have c: "\<forall>p r p'. comparison (Suc n) p = ok (r, p') \<longrightarrow> previousToken p' \<noteq> None"
    using Suc by (auto simp: Let_def andThen_eq_ok split: if_splits)
  have f: "\<forall>p r p'. factor (Suc n) p = ok (r, p') \<longrightarrow> previousToken p' \<noteq> None"
    using Suc
    by (auto simp: Let_def andThen_eq_ok split: if_splits
        dest!: eat_previous variable_previous)
  from e t c f show ?case by simp
qed

lemma assignmentExpression_previous:
  "assignmentExpression n p = ok (r, p') \<Longrightarrow> previousToken p' \<noteq> None"
  using expression_previous [of n]
  by (auto simp: assignmentExpression_def Let_def andThen_eq_ok)

lemma call_previous:
  "call n p = ok (r, p') \<Longrightarrow> previousToken p' \<noteq> None"
  by (auto simp: call_def Let_def andThen_eq_ok dest!: eat_previous)

lemma eaten: "eat p K m b = ok q \<Longrightarrow> previousToken q \<noteq> None"
  using eat_previous [of p K m b q] by simp

lemma statement_previous_step:
  assumes "\<And>p r p'. compoundStatement n p = ok (r, p') \<Longrightarrow> previousToken p' \<noteq> None"
    and "\<And>p r p'. ifStatement n p = ok (r, p') \<Longrightarrow> previousToken p' \<noteq> None"
    and "\<And>p r p'. for' n p = ok (r, p') \<Longrightarrow> previousToken p' \<noteq> None"
    and "\<And>p r p'. while' n p = ok (r, p') \<Longrightarrow> previousToken p' \<noteq> None"
    and "\<And>p r p'. repeat' n p = ok (r, p') \<Longrightarrow> previousToken p' \<noteq> None"
    and "statement (Suc n) p = ok (r, p')" and "previousToken p \<noteq> None"
  shows "previousToken p' \<noteq> None"
proof -
  let ?k = "kind (currentToken p)"
  consider (isBegin) "?k = BeginToken"
    | (isCall) "?k = IdToken" "kind (peek p) = OpeningParenthesisToken"
    | (isAssignment) "?k = IdToken" "kind (peek p) \<noteq> OpeningParenthesisToken"
    | (isIf) "?k = IfToken" | (isFor) "?k = ForToken" | (isWhile) "?k = WhileToken"
    | (isRepeat) "?k = RepeatToken"
    | (isEmpty) "?k \<notin> {BeginToken, IdToken, IfToken, ForToken, WhileToken, RepeatToken}"
    by auto
  then show ?thesis
  proof cases
    case isBegin
    with assms(6) have "compoundStatement n p = ok (r, p')" by simp
    then show ?thesis by (rule assms(1))
  next
    case isCall
    with assms(6) have "call n p = ok (r, p')" by simp
    then show ?thesis by (rule call_previous)
  next
    case isAssignment
    with assms(6) have "assignmentExpression n p = ok (r, p')" by simp
    then show ?thesis by (rule assignmentExpression_previous)
  next
    case isIf
    with assms(6) have "ifStatement n p = ok (r, p')" by simp
    then show ?thesis by (rule assms(2))
  next
    case isFor
    with assms(6) have "for' n p = ok (r, p')" by simp
    then show ?thesis by (rule assms(3))
  next
    case isWhile
    with assms(6) have "while' n p = ok (r, p')" by simp
    then show ?thesis by (rule assms(4))
  next
    case isRepeat
    with assms(6) have "repeat' n p = ok (r, p')" by simp
    then show ?thesis by (rule assms(5))
  next
    case isEmpty
    with assms(6) have "p' = p" by simp
    with assms(7) show ?thesis by simp
  qed
qed

lemma compoundStatement_previous_step:
  assumes "compoundStatement (Suc n) p = ok (r, p')"
  shows "previousToken p' \<noteq> None"
proof -
  from assms obtain q where
    "eat q EndToken (Some ''Expected compound statement to end with end'') False = ok p'"
    by (auto simp: Let_def andThen_eq_ok)
  then show ?thesis by (rule eaten)
qed

lemma statementList_previous_step:
  assumes "\<And>p r p'. statement n p = ok (r, p') \<Longrightarrow> previousToken p \<noteq> None \<Longrightarrow>
             previousToken p' \<noteq> None"
    and "\<And>ss p r p'. statementListLoop n ss p = ok (r, p') \<Longrightarrow> previousToken p \<noteq> None \<Longrightarrow>
             previousToken p' \<noteq> None"
    and "statementList (Suc n) p = ok (r, p')" and "previousToken p \<noteq> None"
  shows "previousToken p' \<noteq> None"
proof -
  from assms(3) obtain first p1 statements p2 where s: "statement n p = ok (first, p1)"
    and l: "statementListLoop n [first] p1 = ok (statements, p2)"
    and c: "(if \<not> List.member statementListTerminators (kind (currentToken p2)) \<and>
          \<not> previousTokenIs p2 SemiToken
       then
         (case previousTokenEndLocationProvider p2 of
            Inl e \<Rightarrow> throw e
          | Inr d \<Rightarrow> throw (PSIError d ''Expected statement to end with a semi colon''))
       else ok (statements, p2)) = ok (r, p')"
    by (auto simp: andThen_eq_ok simp del: List.member_iff)
  from c have "p' = p2"
    by (auto split: if_splits sum.splits)
  moreover from s assms(4) have "previousToken p1 \<noteq> None" by (rule assms(1))
  with l have "previousToken p2 \<noteq> None" by (rule assms(2))
  ultimately show ?thesis by simp
qed

lemma statementListLoop_previous_step:
  assumes "\<And>p r p'. statement n p = ok (r, p') \<Longrightarrow> previousToken p \<noteq> None \<Longrightarrow>
             previousToken p' \<noteq> None"
    and "\<And>ss p r p'. statementListLoop n ss p = ok (r, p') \<Longrightarrow> previousToken p \<noteq> None \<Longrightarrow>
             previousToken p' \<noteq> None"
    and "statementListLoop (Suc n) ss p = ok (r, p')" and "previousToken p \<noteq> None"
  shows "previousToken p' \<noteq> None"
proof (cases "kind (currentToken p) = SemiToken")
  case True
  with assms(3) obtain p1 s p2 where e: "eat p SemiToken None False = ok p1"
    and s: "statement n p1 = ok (s, p2)"
    and l: "statementListLoop n (ss @ [s]) p2 = ok (r, p')"
    by (auto simp: andThen_eq_ok)
  from e have "previousToken p1 \<noteq> None" by (rule eaten)
  with s have "previousToken p2 \<noteq> None" by (rule assms(1))
  with l show ?thesis by (rule assms(2))
next
  case False
  with assms(3,4) show ?thesis by simp
qed

lemma if_previous_step:
  assumes "\<And>p r p'. statement n p = ok (r, p') \<Longrightarrow> previousToken p \<noteq> None \<Longrightarrow>
             previousToken p' \<noteq> None"
    and "if' (Suc n) p = ok (r, p')"
  shows "previousToken p' \<noteq> None"
proof -
  from assms(2) obtain q p3 body where
    e: "eat q ThenToken (Some ''Expected then after if condition'') True = ok p3"
    and s: "statement n p3 = ok (body, p')"
    by (auto simp: Let_def andThen_eq_ok)
  from e have "previousToken p3 \<noteq> None" by (rule eaten)
  with s show ?thesis by (rule assms(1))
qed

lemma while_previous_step:
  assumes "\<And>p r p'. statement n p = ok (r, p') \<Longrightarrow> previousToken p \<noteq> None \<Longrightarrow>
             previousToken p' \<noteq> None"
    and "while' (Suc n) p = ok (r, p')"
  shows "previousToken p' \<noteq> None"
proof -
  from assms(2) obtain q p3 body where
    e: "eat q DoToken (Some ''Expected do after while condition'') True = ok p3"
    and s: "statement n p3 = ok (body, p')"
    by (auto simp: Let_def andThen_eq_ok)
  from e have "previousToken p3 \<noteq> None" by (rule eaten)
  with s show ?thesis by (rule assms(1))
qed

lemma repeat_previous_step:
  assumes "repeat' (Suc n) p = ok (r, p')"
  shows "previousToken p' \<noteq> None"
proof -
  from assms obtain q condition where "expression n q = ok (condition, p')"
    by (auto simp: Let_def andThen_eq_ok)
  with expression_previous [of n] show ?thesis by simp
qed

lemma ifStatementLoop_previous_step:
  assumes "\<And>p r p'. statement n p = ok (r, p') \<Longrightarrow> previousToken p \<noteq> None \<Longrightarrow>
             previousToken p' \<noteq> None"
    and "\<And>p r p'. if' n p = ok (r, p') \<Longrightarrow> previousToken p' \<noteq> None"
    and "\<And>c p r p'. ifStatementLoop n c p = ok (r, p') \<Longrightarrow> previousToken p \<noteq> None \<Longrightarrow>
             previousToken p' \<noteq> None"
    and "ifStatementLoop (Suc n) c p = ok (r, p')" and "previousToken p \<noteq> None"
  shows "previousToken p' \<noteq> None"
proof (cases "kind (currentToken p) = ElseToken")
  case False
  with assms(4,5) show ?thesis by simp
next
  case True
  with assms(4) obtain p1 where p1: "eat p ElseToken None False = ok p1"
    and rest: "(if kind (currentToken p1) = IfToken then
            andThen (if' n p1) (\<lambda>(newIf, p2).
            andThen (ifStatementLoop n newIf p2) (\<lambda>(newIf', p3).
            ok (addNext c newIf', p3)))
          else
            andThen (statement n p1) (\<lambda>(alternative, p2).
            ifStatementLoop n (addNext c alternative) p2)) = ok (r, p')"
    by (auto simp: andThen_eq_ok)
  from p1 have q: "previousToken p1 \<noteq> None" by (rule eaten)
  show ?thesis
  proof (cases "kind (currentToken p1) = IfToken")
    case True
    with rest obtain newIf p2 newIf' where i: "if' n p1 = ok (newIf, p2)"
      and l: "ifStatementLoop n newIf p2 = ok (newIf', p')"
      by (auto simp: andThen_eq_ok)
    from i have "previousToken p2 \<noteq> None" by (rule assms(2))
    with l show ?thesis by (rule assms(3))
  next
    case False
    with rest obtain alternative p2 where s: "statement n p1 = ok (alternative, p2)"
      and l: "ifStatementLoop n (addNext c alternative) p2 = ok (r, p')"
      by (auto simp: andThen_eq_ok)
    from s q have "previousToken p2 \<noteq> None" by (rule assms(1))
    with l show ?thesis by (rule assms(3))
  qed
qed

lemma ifStatement_previous_step:
  assumes "\<And>p r p'. if' n p = ok (r, p') \<Longrightarrow> previousToken p' \<noteq> None"
    and "\<And>c p r p'. ifStatementLoop n c p = ok (r, p') \<Longrightarrow> previousToken p \<noteq> None \<Longrightarrow>
             previousToken p' \<noteq> None"
    and "ifStatement (Suc n) p = ok (r, p')"
  shows "previousToken p' \<noteq> None"
proof -
  from assms(3) obtain firstIf p1 where i: "if' n p = ok (firstIf, p1)"
    and l: "ifStatementLoop n firstIf p1 = ok (r, p')"
    by (auto simp: andThen_eq_ok)
  from i have "previousToken p1 \<noteq> None" by (rule assms(1))
  with l show ?thesis by (rule assms(2))
qed

lemma andThen_okE:
  assumes "andThen m f = ok y"
  obtains x where "m = ok x" and "f x = ok y"
  using assms by (auto simp: andThen_eq_ok)

lemma for_previous_step:
  assumes "\<And>p r p'. statement n p = ok (r, p') \<Longrightarrow> previousToken p \<noteq> None \<Longrightarrow>
             previousToken p' \<noteq> None"
    and "for' (Suc n) p = ok (r, p')"
  shows "previousToken p' \<noteq> None"
proof -
  from assms(2) obtain q p5 body where
    e: "eat q DoToken (Some ''Expected do after for header'') True = ok p5"
    and s: "statement n p5 = ok (body, p')"
    unfolding for'.simps Let_def
    apply ((elim andThen_okE)?, (simp only: split_paired_all case_prod_conv)?)
    apply ((elim andThen_okE)?, (simp only: split_paired_all case_prod_conv)?)
    apply ((elim andThen_okE)?, (simp only: split_paired_all case_prod_conv)?)
    apply ((elim andThen_okE)?, (simp only: split_paired_all case_prod_conv)?)
    apply ((elim andThen_okE)?, (simp only: split_paired_all case_prod_conv)?)
    apply (thin_tac "(if _ then _ else _) = _")
    apply (simp only: result_inject prod.inject)
    done
  from e have "previousToken p5 \<noteq> None" by (rule eaten)
  with s show ?thesis by (rule assms(1))
qed

text \<open>
  A production that succeeds leaves a previously consumed token behind, provided there was
  one when it started (only the empty statement consumes nothing).
\<close>

lemma statement_previous:
  "(\<forall>p r p'. statement n p = ok (r, p') \<longrightarrow> previousToken p \<noteq> None \<longrightarrow>
      previousToken p' \<noteq> None) \<and>
   (\<forall>p r p'. compoundStatement n p = ok (r, p') \<longrightarrow> previousToken p' \<noteq> None) \<and>
   (\<forall>p r p'. statementList n p = ok (r, p') \<longrightarrow> previousToken p \<noteq> None \<longrightarrow>
      previousToken p' \<noteq> None) \<and>
   (\<forall>ss p r p'. statementListLoop n ss p = ok (r, p') \<longrightarrow> previousToken p \<noteq> None \<longrightarrow>
      previousToken p' \<noteq> None) \<and>
   (\<forall>p r p'. ifStatement n p = ok (r, p') \<longrightarrow> previousToken p' \<noteq> None) \<and>
   (\<forall>c p r p'. ifStatementLoop n c p = ok (r, p') \<longrightarrow> previousToken p \<noteq> None \<longrightarrow>
      previousToken p' \<noteq> None) \<and>
   (\<forall>p r p'. if' n p = ok (r, p') \<longrightarrow> previousToken p' \<noteq> None) \<and>
   (\<forall>p r p'. for' n p = ok (r, p') \<longrightarrow> previousToken p' \<noteq> None) \<and>
   (\<forall>p r p'. while' n p = ok (r, p') \<longrightarrow> previousToken p' \<noteq> None) \<and>
   (\<forall>p r p'. repeat' n p = ok (r, p') \<longrightarrow> previousToken p' \<noteq> None)"
proof (induction n)
  case 0
  show ?case by simp
next
  case (Suc n)
  then have ihStatement: "\<And>p r p'. statement n p = ok (r, p') \<Longrightarrow> previousToken p \<noteq> None \<Longrightarrow>
      previousToken p' \<noteq> None"
    and ihCompound: "\<And>p r p'. compoundStatement n p = ok (r, p') \<Longrightarrow> previousToken p' \<noteq> None"
    and ihLoop: "\<And>ss p r p'. statementListLoop n ss p = ok (r, p') \<Longrightarrow>
      previousToken p \<noteq> None \<Longrightarrow> previousToken p' \<noteq> None"
    and ihIfStatement: "\<And>p r p'. ifStatement n p = ok (r, p') \<Longrightarrow> previousToken p' \<noteq> None"
    and ihIfLoop: "\<And>c p r p'. ifStatementLoop n c p = ok (r, p') \<Longrightarrow>
      previousToken p \<noteq> None \<Longrightarrow> previousToken p' \<noteq> None"
    and ihIf: "\<And>p r p'. if' n p = ok (r, p') \<Longrightarrow> previousToken p' \<noteq> None"
    and ihFor: "\<And>p r p'. for' n p = ok (r, p') \<Longrightarrow> previousToken p' \<noteq> None"
    and ihWhile: "\<And>p r p'. while' n p = ok (r, p') \<Longrightarrow> previousToken p' \<noteq> None"
    and ihRepeat: "\<And>p r p'. repeat' n p = ok (r, p') \<Longrightarrow> previousToken p' \<noteq> None"
    by simp_all
  show ?case
  proof (intro conjI allI impI)
    fix p :: Parser and r p'
    assume "statement (Suc n) p = ok (r, p')" and "previousToken p \<noteq> None"
    with ihCompound ihIfStatement ihFor ihWhile ihRepeat show "previousToken p' \<noteq> None"
      by (rule statement_previous_step)
  next
    fix p :: Parser and r p'
    assume "compoundStatement (Suc n) p = ok (r, p')"
    then show "previousToken p' \<noteq> None"
      by (rule compoundStatement_previous_step)
  next
    fix p :: Parser and r p'
    assume "statementList (Suc n) p = ok (r, p')" and "previousToken p \<noteq> None"
    with ihStatement ihLoop show "previousToken p' \<noteq> None"
      by (rule statementList_previous_step)
  next
    fix ss and p :: Parser and r p'
    assume "statementListLoop (Suc n) ss p = ok (r, p')" and "previousToken p \<noteq> None"
    with ihStatement ihLoop show "previousToken p' \<noteq> None"
      by (rule statementListLoop_previous_step)
  next
    fix p :: Parser and r p'
    assume "ifStatement (Suc n) p = ok (r, p')"
    with ihIf ihIfLoop show "previousToken p' \<noteq> None"
      by (rule ifStatement_previous_step)
  next
    fix c and p :: Parser and r p'
    assume "ifStatementLoop (Suc n) c p = ok (r, p')" and "previousToken p \<noteq> None"
    with ihStatement ihIf ihIfLoop show "previousToken p' \<noteq> None"
      by (rule ifStatementLoop_previous_step)
  next
    fix p :: Parser and r p'
    assume "if' (Suc n) p = ok (r, p')"
    with ihStatement show "previousToken p' \<noteq> None"
      by (rule if_previous_step)
  next
    fix p :: Parser and r p'
    assume "for' (Suc n) p = ok (r, p')"
    with ihStatement show "previousToken p' \<noteq> None"
      by (rule for_previous_step)
  next
    fix p :: Parser and r p'
    assume "while' (Suc n) p = ok (r, p')"
    with ihStatement show "previousToken p' \<noteq> None"
      by (rule while_previous_step)
  next
    fix p :: Parser and r p'
    assume "repeat' (Suc n) p = ok (r, p')"
    then show "previousToken p' \<noteq> None"
      by (rule repeat_previous_step)
  qed
qed

subsection \<open>The depth bound\<close>

text \<open>
  A result does not depend on the depth allowed, once the depth suffices: what a production
  returns with some depth, it returns with every greater depth.
\<close>

lemma andThen_mono:
  assumes "andThen m f = Some r"
    and "\<And>x. m = Some x \<Longrightarrow> m' = Some x"
    and "\<And>a. m = ok a \<Longrightarrow> f a = Some r \<Longrightarrow> f' a = Some r"
  shows "andThen m' f' = Some r"
proof (cases m)
  case None
  with assms(1) show ?thesis by (simp add: andThen_def)
next
  case (Some x)
  then have m': "m' = Some x" by (rule assms(2))
  show ?thesis
  proof (cases x)
    case (Inl e)
    with Some m' assms(1) show ?thesis by (simp add: andThen_def)
  next
    case (Inr a)
    with Some have "m = ok a" by (simp add: ok_def)
    moreover from this assms(1) have "f a = Some r" by simp
    ultimately have "f' a = Some r" by (rule assms(3))
    with Inr m' show ?thesis by (simp add: andThen_def)
  qed
qed

lemma andThen_mono_right:
  assumes "andThen m f = Some r"
    and "\<And>a. m = ok a \<Longrightarrow> f a = Some r \<Longrightarrow> f' a = Some r"
  shows "andThen m f' = Some r"
  using assms(1) _ assms(2) by (rule andThen_mono)

lemma andThen_mono_left:
  assumes "andThen m f = Some r"
    and "\<And>x. m = Some x \<Longrightarrow> m' = Some x"
  shows "andThen m' f = Some r"
  using assms by (rule andThen_mono)

lemma expression_mono_step:
  assumes sub: "\<And>p r. term' n p = Some r \<Longrightarrow> term' (Suc n) p = Some r"
    and recur: "\<And>p r. expression n p = Some r \<Longrightarrow> expression (Suc n) p = Some r"
    and "expression (Suc n) p = Some r"
  shows "expression (Suc (Suc n)) p = Some r"
  using assms(3)
  apply (subst expression.simps(2))
  apply (subst (asm) expression.simps(2))
  unfolding Let_def
  apply (erule andThen_mono)
   apply (erule sub)
  apply (clarsimp simp del: expression.simps term'.simps split: if_splits)
    apply (erule andThen_mono_right, erule andThen_mono_left, erule recur)+
  done

lemma term_mono_step:
  assumes sub: "\<And>p r. comparison n p = Some r \<Longrightarrow> comparison (Suc n) p = Some r"
    and recur: "\<And>p r. term' n p = Some r \<Longrightarrow> term' (Suc n) p = Some r"
    and "term' (Suc n) p = Some r"
  shows "term' (Suc (Suc n)) p = Some r"
  using assms(3)
  apply (subst term'.simps(2))
  apply (subst (asm) term'.simps(2))
  unfolding Let_def
  apply (erule andThen_mono)
   apply (erule sub)
  apply (clarsimp simp del: comparison.simps term'.simps split: if_splits)
      apply (erule andThen_mono_right, erule andThen_mono_left, erule recur)+
  done

lemma comparison_mono_step:
  assumes sub: "\<And>p r. factor n p = Some r \<Longrightarrow> factor (Suc n) p = Some r"
    and recur: "\<And>p r. comparison n p = Some r \<Longrightarrow> comparison (Suc n) p = Some r"
    and "comparison (Suc n) p = Some r"
  shows "comparison (Suc (Suc n)) p = Some r"
  using assms(3)
  apply (subst comparison.simps(2))
  apply (subst (asm) comparison.simps(2))
  unfolding Let_def
  apply (erule andThen_mono)
   apply (erule sub)
  apply (clarsimp simp del: comparison.simps factor.simps split: if_splits)
       apply (erule andThen_mono_right, erule andThen_mono_left, erule recur)+
  done

lemma factor_mono_step:
  assumes sub: "\<And>p r. expression n p = Some r \<Longrightarrow> expression (Suc n) p = Some r"
    and recur: "\<And>p r. factor n p = Some r \<Longrightarrow> factor (Suc n) p = Some r"
    and "factor (Suc n) p = Some r"
  shows "factor (Suc (Suc n)) p = Some r"
  using assms(3)
  apply (subst factor.simps(2))
  apply (subst (asm) factor.simps(2))
  unfolding Let_def
  apply (clarsimp simp del: expression.simps factor.simps split: if_splits)
     apply (erule andThen_mono_right, erule andThen_mono_left, (erule recur | erule sub))+
  done

lemma expression_mono_Suc:
  "(\<forall>p r. expression n p = Some r \<longrightarrow> expression (Suc n) p = Some r) \<and>
   (\<forall>p r. term' n p = Some r \<longrightarrow> term' (Suc n) p = Some r) \<and>
   (\<forall>p r. comparison n p = Some r \<longrightarrow> comparison (Suc n) p = Some r) \<and>
   (\<forall>p r. factor n p = Some r \<longrightarrow> factor (Suc n) p = Some r)"
proof (induction n)
  case 0
  show ?case by simp
next
  case (Suc n)
  then have e: "\<And>p r. expression n p = Some r \<Longrightarrow> expression (Suc n) p = Some r"
    and t: "\<And>p r. term' n p = Some r \<Longrightarrow> term' (Suc n) p = Some r"
    and c: "\<And>p r. comparison n p = Some r \<Longrightarrow> comparison (Suc n) p = Some r"
    and f: "\<And>p r. factor n p = Some r \<Longrightarrow> factor (Suc n) p = Some r"
    by blast+
  show ?case
  proof (intro conjI allI impI)
    fix p r
    assume "expression (Suc n) p = Some r"
    with t e show "expression (Suc (Suc n)) p = Some r" by (rule expression_mono_step)
  next
    fix p r
    assume "term' (Suc n) p = Some r"
    with c t show "term' (Suc (Suc n)) p = Some r" by (rule term_mono_step)
  next
    fix p r
    assume "comparison (Suc n) p = Some r"
    with f c show "comparison (Suc (Suc n)) p = Some r" by (rule comparison_mono_step)
  next
    fix p r
    assume "factor (Suc n) p = Some r"
    with e f show "factor (Suc (Suc n)) p = Some r" by (rule factor_mono_step)
  qed
qed

lemmas expression_mono_Suc1 = expression_mono_Suc [THEN conjunct1, rule_format]

lemma expression_mono:
  assumes "expression n p = Some r" and "n \<le> k"
  shows "expression k p = Some r"
  using assms(2,1)
proof (induction rule: dec_induct)
  case base
  then show ?case .
next
  case (step m)
  from step.IH [OF step.prems] show ?case by (rule expression_mono_Suc1)
qed

lemmas production_simps =
  expression.simps term'.simps comparison.simps factor.simps callArguments.simps
  statement.simps compoundStatement.simps statementList.simps statementListLoop.simps
  ifStatement.simps ifStatementLoop.simps if'.simps for'.simps while'.simps repeat'.simps

lemma assignmentExpression_mono_Suc:
  assumes "assignmentExpression n p = Some r"
  shows "assignmentExpression (Suc n) p = Some r"
  using assms unfolding assignmentExpression_def Let_def
  apply -
  apply (erule andThen_mono_right)
  apply (clarsimp simp del: production_simps)
  apply (erule andThen_mono_right)
  apply (erule andThen_mono_left)
  apply (erule expression_mono_Suc1)
  done

lemma callArguments_mono_Suc:
  "callArguments n args p = Some r \<Longrightarrow> callArguments (Suc n) args p = Some r"
proof (induction n arbitrary: args p)
  case 0
  then show ?case by simp
next
  case (Suc n)
  from Suc.prems show ?case
    apply (subst callArguments.simps(2))
    apply (subst (asm) callArguments.simps(2))
    apply (clarsimp simp del: production_simps split: if_splits)
    apply (erule andThen_mono_right)
    apply (erule andThen_mono)
     apply (erule expression_mono_Suc1)
    apply (clarsimp simp del: production_simps)
    apply (erule Suc.IH)
    done
qed

lemma call_mono_Suc:
  assumes "call n p = Some r"
  shows "call (Suc n) p = Some r"
  using assms unfolding call_def Let_def
  apply -
  apply (erule andThen_mono_right)
  apply (clarsimp simp del: production_simps)
  apply (erule andThen_mono_right)
  apply (erule andThen_mono_left)
  apply (clarsimp simp del: production_simps split: if_splits)
  apply (erule andThen_mono)
   apply (erule expression_mono_Suc1)
  apply (clarsimp simp del: production_simps)
  apply (erule callArguments_mono_Suc)
  done

lemma statement_mono_step:
  assumes "\<And>p r. compoundStatement n p = Some r \<Longrightarrow> compoundStatement (Suc n) p = Some r"
    and "\<And>p r. ifStatement n p = Some r \<Longrightarrow> ifStatement (Suc n) p = Some r"
    and "\<And>p r. for' n p = Some r \<Longrightarrow> for' (Suc n) p = Some r"
    and "\<And>p r. while' n p = Some r \<Longrightarrow> while' (Suc n) p = Some r"
    and "\<And>p r. repeat' n p = Some r \<Longrightarrow> repeat' (Suc n) p = Some r"
    and "statement (Suc n) p = Some r"
  shows "statement (Suc (Suc n)) p = Some r"
  using assms(6)
  apply (subst statement.simps(2))
  apply (subst (asm) statement.simps(2))
  apply (simp del: production_simps split: if_splits
      add: assms(1-5) call_mono_Suc assignmentExpression_mono_Suc)
  done

lemma compoundStatement_mono_step:
  assumes "\<And>p r. statementList n p = Some r \<Longrightarrow> statementList (Suc n) p = Some r"
    and "compoundStatement (Suc n) p = Some r"
  shows "compoundStatement (Suc (Suc n)) p = Some r"
  using assms(2)
  apply (subst compoundStatement.simps(2))
  apply (subst (asm) compoundStatement.simps(2))
  unfolding Let_def
  apply (erule andThen_mono_right)
  apply (erule andThen_mono_left)
  apply (erule assms(1))
  done

lemma statementList_mono_step:
  assumes "\<And>p r. statement n p = Some r \<Longrightarrow> statement (Suc n) p = Some r"
    and "\<And>ss p r. statementListLoop n ss p = Some r \<Longrightarrow>
           statementListLoop (Suc n) ss p = Some r"
    and "statementList (Suc n) p = Some r"
  shows "statementList (Suc (Suc n)) p = Some r"
  using assms(3)
  apply (subst statementList.simps(2))
  apply (subst (asm) statementList.simps(2))
  apply (erule andThen_mono)
   apply (erule assms(1))
  apply (clarsimp simp del: production_simps List.member_iff)
  apply (erule andThen_mono_left)
  apply (erule assms(2))
  done

lemma statementListLoop_mono_step:
  assumes "\<And>p r. statement n p = Some r \<Longrightarrow> statement (Suc n) p = Some r"
    and "\<And>ss p r. statementListLoop n ss p = Some r \<Longrightarrow>
           statementListLoop (Suc n) ss p = Some r"
    and "statementListLoop (Suc n) ss p = Some r"
  shows "statementListLoop (Suc (Suc n)) ss p = Some r"
  using assms(3)
  apply (subst statementListLoop.simps(2))
  apply (subst (asm) statementListLoop.simps(2))
  apply (clarsimp simp del: production_simps split: if_splits)
  apply (erule andThen_mono_right)
  apply (erule andThen_mono)
   apply (erule assms(1))
  apply (clarsimp simp del: production_simps)
  apply (erule assms(2))
  done

lemma ifStatement_mono_step:
  assumes "\<And>p r. if' n p = Some r \<Longrightarrow> if' (Suc n) p = Some r"
    and "\<And>c p r. ifStatementLoop n c p = Some r \<Longrightarrow> ifStatementLoop (Suc n) c p = Some r"
    and "ifStatement (Suc n) p = Some r"
  shows "ifStatement (Suc (Suc n)) p = Some r"
  using assms(3)
  apply (subst ifStatement.simps(2))
  apply (subst (asm) ifStatement.simps(2))
  apply (erule andThen_mono)
   apply (erule assms(1))
  apply (clarsimp simp del: production_simps)
  apply (erule assms(2))
  done

lemma ifStatementLoop_mono_step:
  assumes "\<And>p r. statement n p = Some r \<Longrightarrow> statement (Suc n) p = Some r"
    and "\<And>p r. if' n p = Some r \<Longrightarrow> if' (Suc n) p = Some r"
    and "\<And>c p r. ifStatementLoop n c p = Some r \<Longrightarrow> ifStatementLoop (Suc n) c p = Some r"
    and "ifStatementLoop (Suc n) c p = Some r"
  shows "ifStatementLoop (Suc (Suc n)) c p = Some r"
  using assms(4)
  apply (subst ifStatementLoop.simps(2))
  apply (subst (asm) ifStatementLoop.simps(2))
  apply (clarsimp simp del: production_simps split: if_splits)
  apply (erule andThen_mono_right)
  apply (clarsimp simp del: production_simps split: if_splits)
   apply (erule andThen_mono)
    apply (erule assms(2))
   apply (clarsimp simp del: production_simps)
   apply (erule andThen_mono_left)
   apply (erule assms(3))
  apply (erule andThen_mono)
   apply (erule assms(1))
  apply (clarsimp simp del: production_simps)
  apply (erule assms(3))
  done

lemma if_mono_step:
  assumes "\<And>p r. statement n p = Some r \<Longrightarrow> statement (Suc n) p = Some r"
    and "if' (Suc n) p = Some r"
  shows "if' (Suc (Suc n)) p = Some r"
  using assms(2)
  apply (subst if'.simps(2))
  apply (subst (asm) if'.simps(2))
  unfolding Let_def
  apply (erule andThen_mono_right)
  apply (erule andThen_mono)
   apply (erule expression_mono_Suc1)
  apply (clarsimp simp del: production_simps)
  apply (erule andThen_mono_right)
  apply (erule andThen_mono_left)
  apply (erule assms(1))
  done

lemma while_mono_step:
  assumes "\<And>p r. statement n p = Some r \<Longrightarrow> statement (Suc n) p = Some r"
    and "while' (Suc n) p = Some r"
  shows "while' (Suc (Suc n)) p = Some r"
  using assms(2)
  apply (subst while'.simps(2))
  apply (subst (asm) while'.simps(2))
  unfolding Let_def
  apply (erule andThen_mono_right)
  apply (erule andThen_mono)
   apply (erule expression_mono_Suc1)
  apply (clarsimp simp del: production_simps)
  apply (erule andThen_mono_right)
  apply (erule andThen_mono_left)
  apply (erule assms(1))
  done

lemma repeat_mono_step:
  assumes "\<And>p r. statementList n p = Some r \<Longrightarrow> statementList (Suc n) p = Some r"
    and "repeat' (Suc n) p = Some r"
  shows "repeat' (Suc (Suc n)) p = Some r"
  using assms(2)
  apply (subst repeat'.simps(2))
  apply (subst (asm) repeat'.simps(2))
  unfolding Let_def
  apply (erule andThen_mono_right)
  apply (erule andThen_mono)
   apply (erule assms(1))
  apply (clarsimp simp del: production_simps)
  apply (erule andThen_mono_right)
  apply (erule andThen_mono_left)
  apply (erule expression_mono_Suc1)
  done

lemma for_mono_step:
  assumes "\<And>p r. statement n p = Some r \<Longrightarrow> statement (Suc n) p = Some r"
    and "for' (Suc n) p = Some r"
  shows "for' (Suc (Suc n)) p = Some r"
  using assms(2)
  apply (subst for'.simps(2))
  apply (subst (asm) for'.simps(2))
  unfolding Let_def
  apply (erule andThen_mono_right)
  apply (erule andThen_mono)
   apply (erule assignmentExpression_mono_Suc)
  apply (simp only: split_paired_all case_prod_conv)
  apply (erule andThen_mono_right)
  apply (simp only: split_paired_all case_prod_conv)
  apply (erule andThen_mono)
   apply (erule expression_mono_Suc1)
  apply (simp only: split_paired_all case_prod_conv)
  apply (erule andThen_mono_right)
  apply (erule andThen_mono_left)
  apply (erule assms(1))
  done

lemma statement_mono_Suc:
  "(\<forall>p r. statement n p = Some r \<longrightarrow> statement (Suc n) p = Some r) \<and>
   (\<forall>p r. compoundStatement n p = Some r \<longrightarrow> compoundStatement (Suc n) p = Some r) \<and>
   (\<forall>p r. statementList n p = Some r \<longrightarrow> statementList (Suc n) p = Some r) \<and>
   (\<forall>ss p r. statementListLoop n ss p = Some r \<longrightarrow>
      statementListLoop (Suc n) ss p = Some r) \<and>
   (\<forall>p r. ifStatement n p = Some r \<longrightarrow> ifStatement (Suc n) p = Some r) \<and>
   (\<forall>c p r. ifStatementLoop n c p = Some r \<longrightarrow> ifStatementLoop (Suc n) c p = Some r) \<and>
   (\<forall>p r. if' n p = Some r \<longrightarrow> if' (Suc n) p = Some r) \<and>
   (\<forall>p r. for' n p = Some r \<longrightarrow> for' (Suc n) p = Some r) \<and>
   (\<forall>p r. while' n p = Some r \<longrightarrow> while' (Suc n) p = Some r) \<and>
   (\<forall>p r. repeat' n p = Some r \<longrightarrow> repeat' (Suc n) p = Some r)"
proof (induction n)
  case 0
  show ?case by simp
next
  case (Suc n)
  then have ihStatement: "\<And>p r. statement n p = Some r \<Longrightarrow> statement (Suc n) p = Some r"
    and ihCompound: "\<And>p r. compoundStatement n p = Some r \<Longrightarrow>
      compoundStatement (Suc n) p = Some r"
    and ihList: "\<And>p r. statementList n p = Some r \<Longrightarrow> statementList (Suc n) p = Some r"
    and ihLoop: "\<And>ss p r. statementListLoop n ss p = Some r \<Longrightarrow>
      statementListLoop (Suc n) ss p = Some r"
    and ihIfStatement: "\<And>p r. ifStatement n p = Some r \<Longrightarrow> ifStatement (Suc n) p = Some r"
    and ihIfLoop: "\<And>c p r. ifStatementLoop n c p = Some r \<Longrightarrow>
      ifStatementLoop (Suc n) c p = Some r"
    and ihIf: "\<And>p r. if' n p = Some r \<Longrightarrow> if' (Suc n) p = Some r"
    and ihFor: "\<And>p r. for' n p = Some r \<Longrightarrow> for' (Suc n) p = Some r"
    and ihWhile: "\<And>p r. while' n p = Some r \<Longrightarrow> while' (Suc n) p = Some r"
    and ihRepeat: "\<And>p r. repeat' n p = Some r \<Longrightarrow> repeat' (Suc n) p = Some r"
    by simp_all
  show ?case
  proof (intro conjI allI impI)
    fix p r
    assume "statement (Suc n) p = Some r"
    with ihCompound ihIfStatement ihFor ihWhile ihRepeat
    show "statement (Suc (Suc n)) p = Some r"
      by (rule statement_mono_step)
  next
    fix p r
    assume "compoundStatement (Suc n) p = Some r"
    with ihList show "compoundStatement (Suc (Suc n)) p = Some r"
      by (rule compoundStatement_mono_step)
  next
    fix p r
    assume "statementList (Suc n) p = Some r"
    with ihStatement ihLoop show "statementList (Suc (Suc n)) p = Some r"
      by (rule statementList_mono_step)
  next
    fix ss p r
    assume "statementListLoop (Suc n) ss p = Some r"
    with ihStatement ihLoop show "statementListLoop (Suc (Suc n)) ss p = Some r"
      by (rule statementListLoop_mono_step)
  next
    fix p r
    assume "ifStatement (Suc n) p = Some r"
    with ihIf ihIfLoop show "ifStatement (Suc (Suc n)) p = Some r"
      by (rule ifStatement_mono_step)
  next
    fix c p r
    assume "ifStatementLoop (Suc n) c p = Some r"
    with ihStatement ihIf ihIfLoop show "ifStatementLoop (Suc (Suc n)) c p = Some r"
      by (rule ifStatementLoop_mono_step)
  next
    fix p r
    assume "if' (Suc n) p = Some r"
    with ihStatement show "if' (Suc (Suc n)) p = Some r"
      by (rule if_mono_step)
  next
    fix p r
    assume "for' (Suc n) p = Some r"
    with ihStatement show "for' (Suc (Suc n)) p = Some r"
      by (rule for_mono_step)
  next
    fix p r
    assume "while' (Suc n) p = Some r"
    with ihStatement show "while' (Suc (Suc n)) p = Some r"
      by (rule while_mono_step)
  next
    fix p r
    assume "repeat' (Suc n) p = Some r"
    with ihList show "repeat' (Suc (Suc n)) p = Some r"
      by (rule repeat_mono_step)
  qed
qed

lemmas statement_mono_Suc1 = statement_mono_Suc [THEN conjunct1, rule_format]

lemmas statementList_mono_Suc1 =
  statement_mono_Suc [THEN conjunct2, THEN conjunct2, THEN conjunct1, rule_format]

lemmas statementListLoop_mono_Suc1 =
  statement_mono_Suc [THEN conjunct2, THEN conjunct2, THEN conjunct2, THEN conjunct1, rule_format]

lemmas ifStatement_mono_Suc1 =
  statement_mono_Suc [THEN conjunct2, THEN conjunct2, THEN conjunct2, THEN conjunct2,
    THEN conjunct1, rule_format]

lemma statement_mono:
  assumes "statement n p = Some r" and "n \<le> k"
  shows "statement k p = Some r"
  using assms(2,1)
proof (induction rule: dec_induct)
  case base
  then show ?case .
next
  case (step m)
  from step.IH [OF step.prems] show ?case by (rule statement_mono_Suc1)
qed

lemma statementListLoop_mono:
  assumes "statementListLoop n ss p = Some r" and "n \<le> k"
  shows "statementListLoop k ss p = Some r"
  using assms(2,1)
proof (induction rule: dec_induct)
  case base
  then show ?case .
next
  case (step m)
  from step.IH [OF step.prems] show ?case by (rule statementListLoop_mono_Suc1)
qed

lemma statementList_mono:
  assumes "statementList n p = Some r" and "n \<le> k"
  shows "statementList k p = Some r"
  using assms(2,1)
proof (induction rule: dec_induct)
  case base
  then show ?case .
next
  case (step m)
  from step.IH [OF step.prems] show ?case by (rule statementList_mono_Suc1)
qed

lemma ifStatement_mono:
  assumes "ifStatement n p = Some r" and "n \<le> k"
  shows "ifStatement k p = Some r"
  using assms(2,1)
proof (induction rule: dec_induct)
  case base
  then show ?case .
next
  case (step m)
  from step.IH [OF step.prems] show ?case by (rule ifStatement_mono_Suc1)
qed

subsection \<open>The missing separator\<close>

text \<open>
  C5. A statement list starts after a token was consumed (\<^verbatim>\<open>begin\<close> or \<^verbatim>\<open>repeat\<close>). Once
  its first statement and the loop over the semicolons succeed, leaving the state \<open>p2\<close>,
  there is a previously consumed token \<open>t\<close>, and with every depth that suffices for the two:
  the list succeeds with the statements read when the current token is \<^verbatim>\<open>end\<close> or
  \<^verbatim>\<open>until\<close> or when \<open>t\<close> is a semicolon; in every other case it fails with the
  missing-semicolon error, whose position starts and ends on the line where \<open>t\<close> ends, one
  column before the column where \<open>t\<close> ends.
\<close>

theorem statementList_missing_separator:
  assumes "previousToken p \<noteq> None"
    and "statement n p = ok (first, p1)"
    and "statementListLoop m [first] p1 = ok (statements, p2)"
    and "n < k" and "m < k"
  shows "\<exists>t. previousToken p2 = Some t \<and>
           statementList k p =
             (if kind (currentToken p2) = EndToken \<or> kind (currentToken p2) = UntilToken \<or>
                 kind t = SemiToken
              then ok (statements, p2)
              else throw (PSIError
                \<lparr>start = \<lparr>linePosition = linePosition (end' t),
                            characterPosition = characterPosition (end' t) - 1\<rparr>,
                 end' = \<lparr>linePosition = linePosition (end' t),
                           characterPosition = characterPosition (end' t) - 1\<rparr>\<rparr>
                ''Expected statement to end with a semi colon''))"
proof -
  from \<open>n < k\<close> \<open>m < k\<close> obtain j where k: "k = Suc j" and j: "n \<le> j" "m \<le> j"
    by (cases k) auto
  from assms(2) j(1) have s: "statement j p = ok (first, p1)"
    unfolding ok_def by (rule statement_mono)
  from assms(3) j(2) have l: "statementListLoop j [first] p1 = ok (statements, p2)"
    unfolding ok_def by (rule statementListLoop_mono)
  from statement_previous [of j] assms(1) s have "previousToken p1 \<noteq> None"
    by simp
  with statement_previous [of j] l have "previousToken p2 \<noteq> None"
    by simp
  then obtain t where t: "previousToken p2 = Some t"
    by auto
  with s l have "statementList (Suc j) p =
             (if kind (currentToken p2) = EndToken \<or> kind (currentToken p2) = UntilToken \<or>
                 kind t = SemiToken
              then ok (statements, p2)
              else throw (PSIError
                \<lparr>start = \<lparr>linePosition = linePosition (end' t),
                            characterPosition = characterPosition (end' t) - 1\<rparr>,
                 end' = \<lparr>linePosition = linePosition (end' t),
                           characterPosition = characterPosition (end' t) - 1\<rparr>\<rparr>
                ''Expected statement to end with a semi colon''))"
    by (simp add: statementListTerminators_def previousTokenIs_def
        previousTokenEndLocationProvider_def)
  with t k show ?thesis
    by simp
qed

text \<open>
  The statements of \<^verbatim>\<open>begin x := 1 y := 2 end\<close>: after \<^verbatim>\<open>x := 1\<close> the current token is
  \<^verbatim>\<open>y\<close> and the previous one is \<^verbatim>\<open>1\<close>, which ends at column 12, so the list fails at
  column 11. The statements of \<^verbatim>\<open>begin x := 1 end\<close> succeed.
\<close>

theorem statementList_missing_separator_witness:
  "statementList 6
     \<lparr>currentToken = mkToken IdToken ''x'' 1 6 7,
      previousToken = Some (mkToken BeginToken ''begin'' 1 0 5),
      lexer = mkToken AssignToken '':='' 1 8 10 ## mkToken IntegerConstToken ''1'' 1 11 12 ##
        mkToken IdToken ''y'' 1 13 14 ## mkToken AssignToken '':='' 1 15 17 ##
        mkToken IntegerConstToken ''2'' 1 18 19 ## mkToken EndToken ''end'' 1 20 23 ##
        sconst (mkToken EofToken [] 1 23 23)\<rparr> =
     throw (PSIError (at 1 11 11) ''Expected statement to end with a semi colon'') \<and>
   statementList 6
     \<lparr>currentToken = mkToken IdToken ''x'' 1 6 7,
      previousToken = Some (mkToken BeginToken ''begin'' 1 0 5),
      lexer = mkToken AssignToken '':='' 1 8 10 ## mkToken IntegerConstToken ''1'' 1 11 12 ##
        mkToken EndToken ''end'' 1 13 16 ## sconst (mkToken EofToken [] 1 16 16)\<rparr> =
     ok ([AssignmentAST (at 1 8 10) (VariableAST (at 1 6 7) ''x'')
            (IntegerConstantAST (at 1 11 12) ''1'')],
         \<lparr>currentToken = mkToken EndToken ''end'' 1 13 16,
          previousToken = Some (mkToken IntegerConstToken ''1'' 1 11 12),
          lexer = sconst (mkToken EofToken [] 1 16 16)\<rparr>)"
proof -
  let ?x = "mkToken IdToken ''x'' 1 6 7"
  let ?g = "mkToken AssignToken '':='' 1 8 10"
  let ?one = "mkToken IntegerConstToken ''1'' 1 11 12"
  let ?y = "mkToken IdToken ''y'' 1 13 14"
  let ?end = "mkToken EndToken ''end'' 1 13 16"
  let ?begin = "mkToken BeginToken ''begin'' 1 0 5"
  let ?rest1 = "mkToken AssignToken '':='' 1 15 17 ##
        mkToken IntegerConstToken ''2'' 1 18 19 ## mkToken EndToken ''end'' 1 20 23 ##
        sconst (mkToken EofToken [] 1 23 23)"
  let ?rest2 = "sconst (mkToken EofToken [] 1 16 16)"
  let ?first = "assignmentNode ?x ?g ?one"
  let ?p1 = "\<lparr>currentToken = ?x, previousToken = Some ?begin,
                lexer = ?g ## ?one ## ?y ## ?rest1\<rparr>"
  let ?p2 = "\<lparr>currentToken = ?x, previousToken = Some ?begin,
                lexer = ?g ## ?one ## ?end ## ?rest2\<rparr>"
  have kinds: "kind (mkToken k v l c1 c2) = k" for k v l c1 c2
    by (simp add: mkToken_def)
  have hyps: "kind ?x = IdToken" "kind ?g = AssignToken" "kind ?one \<in> set atomKinds"
    and y: "kind ?y \<notin> set binaryOperators" and e: "kind ?end \<notin> set binaryOperators"
    by (simp_all add: kinds atomKinds_def binaryOperators_def expressionOperators_def
        termOperators_def comparisonOperators_def)
  have five: "(5::nat) \<le> 5" by simp
  have less: "(5::nat) < 6" by simp
  have started: "previousToken ?p1 \<noteq> None" "previousToken ?p2 \<noteq> None"
    by simp_all
  have s1: "statement 5 ?p1 =
            ok (?first, \<lparr>currentToken = ?y, previousToken = Some ?one, lexer = ?rest1\<rparr>)"
    using hyps y five by (rule statement_assignment)
  have l1: "statementListLoop 5 [?first]
              \<lparr>currentToken = ?y, previousToken = Some ?one, lexer = ?rest1\<rparr> =
            ok ([?first], \<lparr>currentToken = ?y, previousToken = Some ?one, lexer = ?rest1\<rparr>)"
    by (rule statementListLoop_stop) (simp_all add: kinds)
  have s2: "statement 5 ?p2 =
            ok (?first, \<lparr>currentToken = ?end, previousToken = Some ?one, lexer = ?rest2\<rparr>)"
    using hyps e five by (rule statement_assignment)
  have l2: "statementListLoop 5 [?first]
              \<lparr>currentToken = ?end, previousToken = Some ?one, lexer = ?rest2\<rparr> =
            ok ([?first], \<lparr>currentToken = ?end, previousToken = Some ?one, lexer = ?rest2\<rparr>)"
    by (rule statementListLoop_stop) (simp_all add: kinds)
  from statementList_missing_separator [OF started(1) s1 l1 less less]
  have first: "statementList 6 ?p1 =
      throw (PSIError (at 1 11 11) ''Expected statement to end with a semi colon'')"
    by (simp add: kinds) (simp add: mkToken_def at_def)
  from statementList_missing_separator [OF started(2) s2 l2 less less]
  have second: "statementList 6 ?p2 =
      ok ([AssignmentAST (at 1 8 10) (VariableAST (at 1 6 7) ''x'')
            (IntegerConstantAST (at 1 11 12) ''1'')],
          \<lparr>currentToken = ?end, previousToken = Some ?one, lexer = ?rest2\<rparr>)"
    by (simp add: kinds assignmentNode_def atomAST_def)
      (simp add: mkToken_def at_def positionOf_def)
  from first second show ?thesis
    by (rule conjI)
qed

subsection \<open>Associativity\<close>

lemmas term_mono_Suc1 = expression_mono_Suc [THEN conjunct2, THEN conjunct1, rule_format]

lemmas comparison_mono_Suc1 =
  expression_mono_Suc [THEN conjunct2, THEN conjunct2, THEN conjunct1, rule_format]

lemmas factor_mono_Suc1 =
  expression_mono_Suc [THEN conjunct2, THEN conjunct2, THEN conjunct2, rule_format]

lemma term_mono:
  assumes "term' n p = Some r" and "n \<le> k"
  shows "term' k p = Some r"
  using assms(2,1)
proof (induction rule: dec_induct)
  case base
  then show ?case .
next
  case (step m)
  from step.IH [OF step.prems] show ?case by (rule term_mono_Suc1)
qed

lemma comparison_mono:
  assumes "comparison n p = Some r" and "n \<le> k"
  shows "comparison k p = Some r"
  using assms(2,1)
proof (induction rule: dec_induct)
  case base
  then show ?case .
next
  case (step m)
  from step.IH [OF step.prems] show ?case by (rule comparison_mono_Suc1)
qed

lemma factor_mono:
  assumes "factor n p = Some r" and "n \<le> k"
  shows "factor k p = Some r"
  using assms(2,1)
proof (induction rule: dec_induct)
  case base
  then show ?case .
next
  case (step m)
  from step.IH [OF step.prems] show ?case by (rule factor_mono_Suc1)
qed

lemma expression_rule_twice:
  assumes a: "term' n p =
              ok (a, \<lparr>currentToken = op1, previousToken = pv1, lexer = x1 ## s1\<rparr>)"
    and op1: "kind op1 \<in> set expressionOperators"
    and b: "term' n \<lparr>currentToken = x1, previousToken = Some op1, lexer = s1\<rparr> =
              ok (b, \<lparr>currentToken = op2, previousToken = pv2, lexer = x2 ## s2\<rparr>)"
    and op2: "kind op2 \<in> set expressionOperators"
    and c: "term' n \<lparr>currentToken = x2, previousToken = Some op2, lexer = s2\<rparr> = ok (c, p3)"
    and stop: "kind (currentToken p3) \<notin> set expressionOperators"
    and k: "n + 3 \<le> k"
  shows "expression k p = ok (binaryNode op1 a (binaryNode op2 b c), p3)"
proof -
  from k obtain j where k: "k = Suc (Suc (Suc j))" and j: "n \<le> j"
    by (cases k; cases "k - 1"; cases "k - 2") auto
  from j have j1: "n \<le> Suc j" and j2: "n \<le> Suc (Suc j)" by simp_all
  have "term' j \<lparr>currentToken = x2, previousToken = Some op2, lexer = s2\<rparr> = ok (c, p3)"
    using c j unfolding ok_def by (rule term_mono)
  then have 3: "expression (Suc j) \<lparr>currentToken = x2, previousToken = Some op2, lexer = s2\<rparr> =
      ok (c, p3)"
    using stop by (rule expression_stop)
  have "term' (Suc j) \<lparr>currentToken = x1, previousToken = Some op1, lexer = s1\<rparr> =
          ok (b, \<lparr>currentToken = op2, previousToken = pv2, lexer = x2 ## s2\<rparr>)"
    using b j1 unfolding ok_def by (rule term_mono)
  then have 2: "expression (Suc (Suc j))
        \<lparr>currentToken = x1, previousToken = Some op1, lexer = s1\<rparr> =
      ok (binaryNode op2 b c, p3)"
    using op2 3 by (rule expression_step)
  have "term' (Suc (Suc j)) p =
          ok (a, \<lparr>currentToken = op1, previousToken = pv1, lexer = x1 ## s1\<rparr>)"
    using a j2 unfolding ok_def by (rule term_mono)
  then show ?thesis
    unfolding k using op1 2 by (rule expression_step)
qed

lemma term_rule_twice:
  assumes a: "comparison n p =
              ok (a, \<lparr>currentToken = op1, previousToken = pv1, lexer = x1 ## s1\<rparr>)"
    and op1: "kind op1 \<in> set termOperators"
    and b: "comparison n \<lparr>currentToken = x1, previousToken = Some op1, lexer = s1\<rparr> =
              ok (b, \<lparr>currentToken = op2, previousToken = pv2, lexer = x2 ## s2\<rparr>)"
    and op2: "kind op2 \<in> set termOperators"
    and c: "comparison n \<lparr>currentToken = x2, previousToken = Some op2, lexer = s2\<rparr> =
              ok (c, p3)"
    and stop: "kind (currentToken p3) \<notin> set termOperators"
    and k: "n + 3 \<le> k"
  shows "term' k p = ok (binaryNode op1 a (binaryNode op2 b c), p3)"
proof -
  from k obtain j where k: "k = Suc (Suc (Suc j))" and j: "n \<le> j"
    by (cases k; cases "k - 1"; cases "k - 2") auto
  from j have j1: "n \<le> Suc j" and j2: "n \<le> Suc (Suc j)" by simp_all
  have "comparison j \<lparr>currentToken = x2, previousToken = Some op2, lexer = s2\<rparr> = ok (c, p3)"
    using c j unfolding ok_def by (rule comparison_mono)
  then have 3: "term' (Suc j) \<lparr>currentToken = x2, previousToken = Some op2, lexer = s2\<rparr> =
      ok (c, p3)"
    using stop by (rule term_stop)
  have "comparison (Suc j) \<lparr>currentToken = x1, previousToken = Some op1, lexer = s1\<rparr> =
          ok (b, \<lparr>currentToken = op2, previousToken = pv2, lexer = x2 ## s2\<rparr>)"
    using b j1 unfolding ok_def by (rule comparison_mono)
  then have 2: "term' (Suc (Suc j))
        \<lparr>currentToken = x1, previousToken = Some op1, lexer = s1\<rparr> =
      ok (binaryNode op2 b c, p3)"
    using op2 3 by (rule term_step)
  have "comparison (Suc (Suc j)) p =
          ok (a, \<lparr>currentToken = op1, previousToken = pv1, lexer = x1 ## s1\<rparr>)"
    using a j2 unfolding ok_def by (rule comparison_mono)
  then show ?thesis
    unfolding k using op1 2 by (rule term_step)
qed

lemma comparison_rule_twice:
  assumes a: "factor n p =
              ok (a, \<lparr>currentToken = op1, previousToken = pv1, lexer = x1 ## s1\<rparr>)"
    and op1: "kind op1 \<in> set comparisonOperators"
    and b: "factor n \<lparr>currentToken = x1, previousToken = Some op1, lexer = s1\<rparr> =
              ok (b, \<lparr>currentToken = op2, previousToken = pv2, lexer = x2 ## s2\<rparr>)"
    and op2: "kind op2 \<in> set comparisonOperators"
    and c: "factor n \<lparr>currentToken = x2, previousToken = Some op2, lexer = s2\<rparr> = ok (c, p3)"
    and stop: "kind (currentToken p3) \<notin> set comparisonOperators"
    and k: "n + 3 \<le> k"
  shows "comparison k p = ok (binaryNode op1 a (binaryNode op2 b c), p3)"
proof -
  from k obtain j where k: "k = Suc (Suc (Suc j))" and j: "n \<le> j"
    by (cases k; cases "k - 1"; cases "k - 2") auto
  from j have j1: "n \<le> Suc j" and j2: "n \<le> Suc (Suc j)" by simp_all
  have "factor j \<lparr>currentToken = x2, previousToken = Some op2, lexer = s2\<rparr> = ok (c, p3)"
    using c j unfolding ok_def by (rule factor_mono)
  then have 3: "comparison (Suc j) \<lparr>currentToken = x2, previousToken = Some op2, lexer = s2\<rparr> =
      ok (c, p3)"
    using stop by (rule comparison_stop)
  have "factor (Suc j) \<lparr>currentToken = x1, previousToken = Some op1, lexer = s1\<rparr> =
          ok (b, \<lparr>currentToken = op2, previousToken = pv2, lexer = x2 ## s2\<rparr>)"
    using b j1 unfolding ok_def by (rule factor_mono)
  then have 2: "comparison (Suc (Suc j))
        \<lparr>currentToken = x1, previousToken = Some op1, lexer = s1\<rparr> =
      ok (binaryNode op2 b c, p3)"
    using op2 3 by (rule comparison_step)
  have "factor (Suc (Suc j)) p =
          ok (a, \<lparr>currentToken = op1, previousToken = pv1, lexer = x1 ## s1\<rparr>)"
    using a j2 unfolding ok_def by (rule factor_mono)
  then show ?thesis
    unfolding k using op1 2 by (rule comparison_step)
qed

lemma binaryAST_left:
  assumes "k1 \<in> set binaryOperators" and "k2 \<in> set binaryOperators"
    and "binaryAST k1 d1 l1 r1 = binaryAST k2 d2 l2 r2"
  shows "l1 = l2"
  using assms
  by (auto simp: binaryOperators_def expressionOperators_def termOperators_def
      comparisonOperators_def)

lemma binaryAST_size:
  assumes "k \<in> set binaryOperators"
  shows "size l < size (binaryAST k d l r)"
  using assms
  by (auto simp: binaryOperators_def expressionOperators_def termOperators_def
      comparisonOperators_def)

lemma right_nested_not_left_nested:
  assumes "kind op1 \<in> set binaryOperators" and "kind op2 \<in> set binaryOperators"
  shows "binaryNode op1 a r \<noteq> binaryNode op2 (binaryNode op1 a b) c"
proof
  assume "binaryNode op1 a r = binaryNode op2 (binaryNode op1 a b) c"
  then have "a = binaryNode op1 a b"
    unfolding binaryNode_def using assms by (rule binaryAST_left [rotated 2])
  moreover have "size a < size (binaryNode op1 a b)"
    unfolding binaryNode_def using assms(1) by (rule binaryAST_size)
  ultimately show False
    by simp
qed

text \<open>
  C3. Each binary rule \<^verbatim>\<open>expression\<close>, \<^verbatim>\<open>term\<close>, \<^verbatim>\<open>comparison\<close> parses its operands with the
  next tighter rule. Take any input in which that tighter rule reads an operand \<open>a\<close> up to
  an operator \<open>op1\<close> of the rule, then an operand \<open>b\<close> up to an operator \<open>op2\<close> of the rule,
  then an operand \<open>c\<close> up to a token that is no operator of the rule. With every depth that
  suffices, the rule returns the tree in which \<open>op2\<close> is the right operand of \<open>op1\<close>, and
  never the tree in which \<open>op1\<close> is the left operand of \<open>op2\<close>.
\<close>

theorem binary_rules_right_associative:
  assumes "(rule, operand, ops) \<in>
             {(expression, term', expressionOperators),
              (term', comparison, termOperators),
              (comparison, factor, comparisonOperators)}"
    and "operand n p =
           ok (a, \<lparr>currentToken = op1, previousToken = pv1, lexer = x1 ## s1\<rparr>)"
    and "kind op1 \<in> set ops"
    and "operand n \<lparr>currentToken = x1, previousToken = Some op1, lexer = s1\<rparr> =
           ok (b, \<lparr>currentToken = op2, previousToken = pv2, lexer = x2 ## s2\<rparr>)"
    and "kind op2 \<in> set ops"
    and "operand n \<lparr>currentToken = x2, previousToken = Some op2, lexer = s2\<rparr> = ok (c, p3)"
    and "kind (currentToken p3) \<notin> set ops"
    and "n + 3 \<le> k"
  shows "rule k p = ok (binaryNode op1 a (binaryNode op2 b c), p3) \<and>
         (\<forall>p'. rule k p \<noteq> ok (binaryNode op2 (binaryNode op1 a b) c, p'))"
proof -
  from assms(1) consider
    (isExpression) "rule = expression" "operand = term'" "ops = expressionOperators"
    | (isTerm) "rule = term'" "operand = comparison" "ops = termOperators"
    | (isComparison) "rule = comparison" "operand = factor" "ops = comparisonOperators"
    by auto
  then have result: "rule k p = ok (binaryNode op1 a (binaryNode op2 b c), p3)"
  proof cases
    case isExpression
    from assms(2-8) show ?thesis
      unfolding isExpression by (rule expression_rule_twice)
  next
    case isTerm
    from assms(2-8) show ?thesis
      unfolding isTerm by (rule term_rule_twice)
  next
    case isComparison
    from assms(2-8) show ?thesis
      unfolding isComparison by (rule comparison_rule_twice)
  qed
  from assms(1,3,5) have "kind op1 \<in> set binaryOperators" "kind op2 \<in> set binaryOperators"
    by (auto simp: binaryOperators_iff)
  then have "binaryNode op1 a (binaryNode op2 b c) \<noteq> binaryNode op2 (binaryNode op1 a b) c"
    by (rule right_nested_not_left_nested)
  with result show ?thesis
    by simp
qed

text \<open>
  The tokens of \<^verbatim>\<open>1 + 2 + 3\<close>, then the end of input: \<^verbatim>\<open>expression\<close> returns
  \<^verbatim>\<open>Plus(1, Plus(2, 3))\<close>, with every token consumed.
\<close>

theorem binary_rules_right_associative_witness:
  "expression 6
     \<lparr>currentToken = mkToken IntegerConstToken ''1'' 1 0 1, previousToken = None,
      lexer = mkToken PlusToken ''+'' 1 2 3 ## mkToken IntegerConstToken ''2'' 1 4 5 ##
        mkToken PlusToken ''+'' 1 6 7 ## mkToken IntegerConstToken ''3'' 1 8 9 ##
        mkToken EofToken [] 1 9 9 ## sconst (mkToken EofToken [] 1 9 9)\<rparr> =
   ok (PlusAST (at 1 2 3) (IntegerConstantAST (at 1 0 1) ''1'')
         (PlusAST (at 1 6 7) (IntegerConstantAST (at 1 4 5) ''2'')
            (IntegerConstantAST (at 1 8 9) ''3'')),
       \<lparr>currentToken = mkToken EofToken [] 1 9 9,
        previousToken = Some (mkToken IntegerConstToken ''3'' 1 8 9),
        lexer = sconst (mkToken EofToken [] 1 9 9)\<rparr>)"
proof -
  let ?one = "mkToken IntegerConstToken ''1'' 1 0 1"
  let ?plus1 = "mkToken PlusToken ''+'' 1 2 3"
  let ?two = "mkToken IntegerConstToken ''2'' 1 4 5"
  let ?plus2 = "mkToken PlusToken ''+'' 1 6 7"
  let ?three = "mkToken IntegerConstToken ''3'' 1 8 9"
  let ?eof = "mkToken EofToken [] 1 9 9"
  have kinds: "kind (mkToken k v l c1 c2) = k" for k v l c1 c2
    by (simp add: mkToken_def)
  have atoms: "kind ?one \<in> set atomKinds" "kind ?two \<in> set atomKinds"
    "kind ?three \<in> set atomKinds"
    by (simp_all add: kinds atomKinds_def)
  have plus: "kind ?plus1 \<in> set expressionOperators" "kind ?plus2 \<in> set expressionOperators"
    "kind ?plus1 \<notin> set comparisonOperators" "kind ?plus1 \<notin> set termOperators"
    "kind ?plus2 \<notin> set comparisonOperators" "kind ?plus2 \<notin> set termOperators"
    and eof: "kind ?eof \<notin> set comparisonOperators" "kind ?eof \<notin> set termOperators"
    "kind ?eof \<notin> set expressionOperators"
    by (simp_all add: kinds expressionOperators_def termOperators_def comparisonOperators_def)
  have three: "(3::nat) \<le> 3" by simp
  have tier: "(expression, term', expressionOperators) \<in>
             {(expression, term', expressionOperators),
              (term', comparison, termOperators),
              (comparison, factor, comparisonOperators)}"
    by simp
  have a: "term' 3 \<lparr>currentToken = ?one, previousToken = None,
              lexer = ?plus1 ## ?two ## ?plus2 ## ?three ## ?eof ## sconst ?eof\<rparr> =
           ok (atomAST ?one, \<lparr>currentToken = ?plus1, previousToken = Some ?one,
              lexer = ?two ## ?plus2 ## ?three ## ?eof ## sconst ?eof\<rparr>)"
    using atoms(1) plus(3,4) three by (rule term_atom)
  have b: "term' 3 \<lparr>currentToken = ?two, previousToken = Some ?plus1,
              lexer = ?plus2 ## ?three ## ?eof ## sconst ?eof\<rparr> =
           ok (atomAST ?two, \<lparr>currentToken = ?plus2, previousToken = Some ?two,
              lexer = ?three ## ?eof ## sconst ?eof\<rparr>)"
    using atoms(2) plus(5,6) three by (rule term_atom)
  have c: "term' 3 \<lparr>currentToken = ?three, previousToken = Some ?plus2,
              lexer = ?eof ## sconst ?eof\<rparr> =
           ok (atomAST ?three, \<lparr>currentToken = ?eof, previousToken = Some ?three,
              lexer = sconst ?eof\<rparr>)"
    using atoms(3) eof(1,2) three by (rule term_atom)
  have stop: "kind (currentToken \<lparr>currentToken = ?eof, previousToken = Some ?three,
              lexer = sconst ?eof\<rparr>) \<notin> set expressionOperators"
    using eof(3) by simp
  have k: "(3::nat) + 3 \<le> 6" by simp
  from binary_rules_right_associative [OF tier a plus(1) b plus(2) c stop k]
  have "expression 6 \<lparr>currentToken = ?one, previousToken = None,
              lexer = ?plus1 ## ?two ## ?plus2 ## ?three ## ?eof ## sconst ?eof\<rparr> =
        ok (binaryNode ?plus1 (atomAST ?one) (binaryNode ?plus2 (atomAST ?two) (atomAST ?three)),
            \<lparr>currentToken = ?eof, previousToken = Some ?three, lexer = sconst ?eof\<rparr>)"
    by (rule conjunct1)
  then show ?thesis
    by (simp add: binaryNode_def atomAST_def kinds) (simp add: mkToken_def at_def positionOf_def)
qed

subsection \<open>Precedence\<close>

lemma expression_over_term:
  assumes a: "term' n p =
              ok (a, \<lparr>currentToken = e, previousToken = pv1, lexer = x1 ## s1\<rparr>)"
    and e: "kind e \<in> set expressionOperators"
    and b: "comparison n \<lparr>currentToken = x1, previousToken = Some e, lexer = s1\<rparr> =
              ok (b, \<lparr>currentToken = t, previousToken = pv2, lexer = x2 ## s2\<rparr>)"
    and t: "kind t \<in> set termOperators"
    and c: "term' n \<lparr>currentToken = x2, previousToken = Some t, lexer = s2\<rparr> = ok (c, p3)"
    and stop: "kind (currentToken p3) \<notin> set expressionOperators"
    and k: "n + 3 \<le> k"
  shows "expression k p = ok (binaryNode e a (binaryNode t b c), p3)"
proof -
  from k obtain j where k: "k = Suc (Suc (Suc j))" and j: "n \<le> j"
    by (cases k; cases "k - 1"; cases "k - 2") auto
  from j have j2: "n \<le> Suc (Suc j)" by simp
  have b': "comparison j \<lparr>currentToken = x1, previousToken = Some e, lexer = s1\<rparr> =
              ok (b, \<lparr>currentToken = t, previousToken = pv2, lexer = x2 ## s2\<rparr>)"
    using b j unfolding ok_def by (rule comparison_mono)
  have c': "term' j \<lparr>currentToken = x2, previousToken = Some t, lexer = s2\<rparr> = ok (c, p3)"
    using c j unfolding ok_def by (rule term_mono)
  from b' t c' have "term' (Suc j) \<lparr>currentToken = x1, previousToken = Some e, lexer = s1\<rparr> =
      ok (binaryNode t b c, p3)"
    by (rule term_step)
  then have right: "expression (Suc (Suc j))
        \<lparr>currentToken = x1, previousToken = Some e, lexer = s1\<rparr> =
      ok (binaryNode t b c, p3)"
    using stop by (rule expression_stop)
  have "term' (Suc (Suc j)) p =
          ok (a, \<lparr>currentToken = e, previousToken = pv1, lexer = x1 ## s1\<rparr>)"
    using a j2 unfolding ok_def by (rule term_mono)
  then show ?thesis
    unfolding k using e right by (rule expression_step)
qed

lemma term_under_expression:
  assumes a: "comparison n p =
              ok (a, \<lparr>currentToken = t, previousToken = pv1, lexer = x1 ## s1\<rparr>)"
    and t: "kind t \<in> set termOperators"
    and b: "term' n \<lparr>currentToken = x1, previousToken = Some t, lexer = s1\<rparr> =
              ok (b, \<lparr>currentToken = e, previousToken = pv2, lexer = x2 ## s2\<rparr>)"
    and e: "kind e \<in> set expressionOperators"
    and c: "expression n \<lparr>currentToken = x2, previousToken = Some e, lexer = s2\<rparr> =
              ok (c, p3)"
    and k: "n + 2 \<le> k"
  shows "expression k p = ok (binaryNode e (binaryNode t a b) c, p3)"
proof -
  from k obtain j where k: "k = Suc (Suc j)" and j: "n \<le> j"
    by (cases k; cases "k - 1") auto
  from j have j1: "n \<le> Suc j" by simp
  have a': "comparison j p =
              ok (a, \<lparr>currentToken = t, previousToken = pv1, lexer = x1 ## s1\<rparr>)"
    using a j unfolding ok_def by (rule comparison_mono)
  have b': "term' j \<lparr>currentToken = x1, previousToken = Some t, lexer = s1\<rparr> =
              ok (b, \<lparr>currentToken = e, previousToken = pv2, lexer = x2 ## s2\<rparr>)"
    using b j unfolding ok_def by (rule term_mono)
  have c': "expression (Suc j) \<lparr>currentToken = x2, previousToken = Some e, lexer = s2\<rparr> =
              ok (c, p3)"
    using c j1 unfolding ok_def by (rule expression_mono)
  from a' t b' have "term' (Suc j) p =
      ok (binaryNode t a b, \<lparr>currentToken = e, previousToken = pv2, lexer = x2 ## s2\<rparr>)"
    by (rule term_step)
  then show ?thesis
    unfolding k using e c' by (rule expression_step)
qed

lemma term_over_comparison:
  assumes a: "comparison n p =
              ok (a, \<lparr>currentToken = t, previousToken = pv1, lexer = x1 ## s1\<rparr>)"
    and t: "kind t \<in> set termOperators"
    and b: "factor n \<lparr>currentToken = x1, previousToken = Some t, lexer = s1\<rparr> =
              ok (b, \<lparr>currentToken = q, previousToken = pv2, lexer = x2 ## s2\<rparr>)"
    and q: "kind q \<in> set comparisonOperators"
    and c: "comparison n \<lparr>currentToken = x2, previousToken = Some q, lexer = s2\<rparr> =
              ok (c, p3)"
    and stop: "kind (currentToken p3) \<notin> set termOperators"
      "kind (currentToken p3) \<notin> set expressionOperators"
    and k: "n + 4 \<le> k"
  shows "expression k p = ok (binaryNode t a (binaryNode q b c), p3)"
proof -
  from k obtain i where k: "k = Suc i" and "n + 3 \<le> i"
    by (cases k) auto
  then obtain j where i: "i = Suc (Suc (Suc j))" and j: "n \<le> j"
    by (cases i; cases "i - 1"; cases "i - 2") auto
  from j have j2: "n \<le> Suc (Suc j)" by simp
  have b': "factor j \<lparr>currentToken = x1, previousToken = Some t, lexer = s1\<rparr> =
              ok (b, \<lparr>currentToken = q, previousToken = pv2, lexer = x2 ## s2\<rparr>)"
    using b j unfolding ok_def by (rule factor_mono)
  have c': "comparison j \<lparr>currentToken = x2, previousToken = Some q, lexer = s2\<rparr> =
              ok (c, p3)"
    using c j unfolding ok_def by (rule comparison_mono)
  from b' q c' have "comparison (Suc j)
        \<lparr>currentToken = x1, previousToken = Some t, lexer = s1\<rparr> =
      ok (binaryNode q b c, p3)"
    by (rule comparison_step)
  then have right: "term' (Suc (Suc j))
        \<lparr>currentToken = x1, previousToken = Some t, lexer = s1\<rparr> =
      ok (binaryNode q b c, p3)"
    using stop(1) by (rule term_stop)
  have "comparison (Suc (Suc j)) p =
          ok (a, \<lparr>currentToken = t, previousToken = pv1, lexer = x1 ## s1\<rparr>)"
    using a j2 unfolding ok_def by (rule comparison_mono)
  then have "term' i p = ok (binaryNode t a (binaryNode q b c), p3)"
    unfolding i using t right by (rule term_step)
  then show ?thesis
    unfolding k using stop(2) by (rule expression_stop)
qed

lemma comparison_under_term:
  assumes a: "factor n p =
              ok (a, \<lparr>currentToken = q, previousToken = pv1, lexer = x1 ## s1\<rparr>)"
    and q: "kind q \<in> set comparisonOperators"
    and b: "comparison n \<lparr>currentToken = x1, previousToken = Some q, lexer = s1\<rparr> =
              ok (b, \<lparr>currentToken = t, previousToken = pv2, lexer = x2 ## s2\<rparr>)"
    and t: "kind t \<in> set termOperators"
    and c: "term' n \<lparr>currentToken = x2, previousToken = Some t, lexer = s2\<rparr> = ok (c, p3)"
    and stop: "kind (currentToken p3) \<notin> set expressionOperators"
    and k: "n + 3 \<le> k"
  shows "expression k p = ok (binaryNode t (binaryNode q a b) c, p3)"
proof -
  from k obtain j where k: "k = Suc (Suc (Suc j))" and j: "n \<le> j"
    by (cases k; cases "k - 1"; cases "k - 2") auto
  from j have j1: "n \<le> Suc j" by simp
  have a': "factor j p =
              ok (a, \<lparr>currentToken = q, previousToken = pv1, lexer = x1 ## s1\<rparr>)"
    using a j unfolding ok_def by (rule factor_mono)
  have b': "comparison j \<lparr>currentToken = x1, previousToken = Some q, lexer = s1\<rparr> =
              ok (b, \<lparr>currentToken = t, previousToken = pv2, lexer = x2 ## s2\<rparr>)"
    using b j unfolding ok_def by (rule comparison_mono)
  have c': "term' (Suc j) \<lparr>currentToken = x2, previousToken = Some t, lexer = s2\<rparr> =
              ok (c, p3)"
    using c j1 unfolding ok_def by (rule term_mono)
  from a' q b' have "comparison (Suc j) p =
      ok (binaryNode q a b, \<lparr>currentToken = t, previousToken = pv2, lexer = x2 ## s2\<rparr>)"
    by (rule comparison_step)
  then have "term' (Suc (Suc j)) p = ok (binaryNode t (binaryNode q a b) c, p3)"
    using t c' by (rule term_step)
  then show ?thesis
    unfolding k using stop by (rule expression_stop)
qed

text \<open>
  C4. \<^verbatim>\<open>expression\<close> is built over \<^verbatim>\<open>term\<close>, \<^verbatim>\<open>term\<close> over \<^verbatim>\<open>comparison\<close>, \<^verbatim>\<open>comparison\<close>
  over \<^verbatim>\<open>factor\<close>. With \<open>e\<close> an operator of \<^verbatim>\<open>expression\<close>, \<open>t\<close> one of \<^verbatim>\<open>term\<close> and \<open>q\<close> one
  of \<^verbatim>\<open>comparison\<close>, and with every depth that suffices: in \<^verbatim>\<open>a e b t c\<close> and in
  \<^verbatim>\<open>a t b e c\<close> the node of \<open>t\<close> is an operand of the node of \<open>e\<close>, and in \<^verbatim>\<open>a t b q c\<close> and
  in \<^verbatim>\<open>a q b t c\<close> the node of \<open>q\<close> is an operand of the node of \<open>t\<close>. The operands \<open>a\<close>,
  \<open>b\<close>, \<open>c\<close> are whatever the rule that reads them returns.
\<close>

theorem tighter_rule_binds_inside_looser:
  "(term' n p = ok (a, \<lparr>currentToken = e, previousToken = pv1, lexer = x1 ## s1\<rparr>) \<and>
    kind e \<in> set expressionOperators \<and>
    comparison n \<lparr>currentToken = x1, previousToken = Some e, lexer = s1\<rparr> =
      ok (b, \<lparr>currentToken = t, previousToken = pv2, lexer = x2 ## s2\<rparr>) \<and>
    kind t \<in> set termOperators \<and>
    term' n \<lparr>currentToken = x2, previousToken = Some t, lexer = s2\<rparr> = ok (c, p3) \<and>
    kind (currentToken p3) \<notin> set expressionOperators \<and> n + 3 \<le> k \<longrightarrow>
    expression k p = ok (binaryNode e a (binaryNode t b c), p3)) \<and>
   (comparison n p = ok (a, \<lparr>currentToken = t, previousToken = pv1, lexer = x1 ## s1\<rparr>) \<and>
    kind t \<in> set termOperators \<and>
    term' n \<lparr>currentToken = x1, previousToken = Some t, lexer = s1\<rparr> =
      ok (b, \<lparr>currentToken = e, previousToken = pv2, lexer = x2 ## s2\<rparr>) \<and>
    kind e \<in> set expressionOperators \<and>
    expression n \<lparr>currentToken = x2, previousToken = Some e, lexer = s2\<rparr> = ok (c, p3) \<and>
    n + 2 \<le> k \<longrightarrow>
    expression k p = ok (binaryNode e (binaryNode t a b) c, p3)) \<and>
   (comparison n p = ok (a, \<lparr>currentToken = t, previousToken = pv1, lexer = x1 ## s1\<rparr>) \<and>
    kind t \<in> set termOperators \<and>
    factor n \<lparr>currentToken = x1, previousToken = Some t, lexer = s1\<rparr> =
      ok (b, \<lparr>currentToken = q, previousToken = pv2, lexer = x2 ## s2\<rparr>) \<and>
    kind q \<in> set comparisonOperators \<and>
    comparison n \<lparr>currentToken = x2, previousToken = Some q, lexer = s2\<rparr> = ok (c, p3) \<and>
    kind (currentToken p3) \<notin> set termOperators \<and>
    kind (currentToken p3) \<notin> set expressionOperators \<and> n + 4 \<le> k \<longrightarrow>
    expression k p = ok (binaryNode t a (binaryNode q b c), p3)) \<and>
   (factor n p = ok (a, \<lparr>currentToken = q, previousToken = pv1, lexer = x1 ## s1\<rparr>) \<and>
    kind q \<in> set comparisonOperators \<and>
    comparison n \<lparr>currentToken = x1, previousToken = Some q, lexer = s1\<rparr> =
      ok (b, \<lparr>currentToken = t, previousToken = pv2, lexer = x2 ## s2\<rparr>) \<and>
    kind t \<in> set termOperators \<and>
    term' n \<lparr>currentToken = x2, previousToken = Some t, lexer = s2\<rparr> = ok (c, p3) \<and>
    kind (currentToken p3) \<notin> set expressionOperators \<and> n + 3 \<le> k \<longrightarrow>
    expression k p = ok (binaryNode t (binaryNode q a b) c, p3))"
proof (intro conjI impI)
  assume "term' n p = ok (a, \<lparr>currentToken = e, previousToken = pv1, lexer = x1 ## s1\<rparr>) \<and>
    kind e \<in> set expressionOperators \<and>
    comparison n \<lparr>currentToken = x1, previousToken = Some e, lexer = s1\<rparr> =
      ok (b, \<lparr>currentToken = t, previousToken = pv2, lexer = x2 ## s2\<rparr>) \<and>
    kind t \<in> set termOperators \<and>
    term' n \<lparr>currentToken = x2, previousToken = Some t, lexer = s2\<rparr> = ok (c, p3) \<and>
    kind (currentToken p3) \<notin> set expressionOperators \<and> n + 3 \<le> k"
  then show "expression k p = ok (binaryNode e a (binaryNode t b c), p3)"
    by (elim conjE) (rule expression_over_term)
next
  assume "comparison n p =
      ok (a, \<lparr>currentToken = t, previousToken = pv1, lexer = x1 ## s1\<rparr>) \<and>
    kind t \<in> set termOperators \<and>
    term' n \<lparr>currentToken = x1, previousToken = Some t, lexer = s1\<rparr> =
      ok (b, \<lparr>currentToken = e, previousToken = pv2, lexer = x2 ## s2\<rparr>) \<and>
    kind e \<in> set expressionOperators \<and>
    expression n \<lparr>currentToken = x2, previousToken = Some e, lexer = s2\<rparr> = ok (c, p3) \<and>
    n + 2 \<le> k"
  then show "expression k p = ok (binaryNode e (binaryNode t a b) c, p3)"
    by (elim conjE) (rule term_under_expression)
next
  assume "comparison n p =
      ok (a, \<lparr>currentToken = t, previousToken = pv1, lexer = x1 ## s1\<rparr>) \<and>
    kind t \<in> set termOperators \<and>
    factor n \<lparr>currentToken = x1, previousToken = Some t, lexer = s1\<rparr> =
      ok (b, \<lparr>currentToken = q, previousToken = pv2, lexer = x2 ## s2\<rparr>) \<and>
    kind q \<in> set comparisonOperators \<and>
    comparison n \<lparr>currentToken = x2, previousToken = Some q, lexer = s2\<rparr> = ok (c, p3) \<and>
    kind (currentToken p3) \<notin> set termOperators \<and>
    kind (currentToken p3) \<notin> set expressionOperators \<and> n + 4 \<le> k"
  then show "expression k p = ok (binaryNode t a (binaryNode q b c), p3)"
    by (elim conjE) (rule term_over_comparison)
next
  assume "factor n p = ok (a, \<lparr>currentToken = q, previousToken = pv1, lexer = x1 ## s1\<rparr>) \<and>
    kind q \<in> set comparisonOperators \<and>
    comparison n \<lparr>currentToken = x1, previousToken = Some q, lexer = s1\<rparr> =
      ok (b, \<lparr>currentToken = t, previousToken = pv2, lexer = x2 ## s2\<rparr>) \<and>
    kind t \<in> set termOperators \<and>
    term' n \<lparr>currentToken = x2, previousToken = Some t, lexer = s2\<rparr> = ok (c, p3) \<and>
    kind (currentToken p3) \<notin> set expressionOperators \<and> n + 3 \<le> k"
  then show "expression k p = ok (binaryNode t (binaryNode q a b) c, p3)"
    by (elim conjE) (rule comparison_under_term)
qed

theorem tighter_rule_binds_inside_looser_witness:
  "expression 6
     \<lparr>currentToken = mkToken IntegerConstToken ''1'' 1 0 1, previousToken = None,
      lexer = mkToken PlusToken ''+'' 1 2 3 ## mkToken IntegerConstToken ''2'' 1 4 5 ##
        mkToken MultiplicationToken ''*'' 1 6 7 ## mkToken IntegerConstToken ''3'' 1 8 9 ##
        mkToken EofToken [] 1 9 9 ## sconst (mkToken EofToken [] 1 9 9)\<rparr> =
   ok (PlusAST (at 1 2 3) (IntegerConstantAST (at 1 0 1) ''1'')
         (MultiplicationAST (at 1 6 7) (IntegerConstantAST (at 1 4 5) ''2'')
            (IntegerConstantAST (at 1 8 9) ''3'')),
       \<lparr>currentToken = mkToken EofToken [] 1 9 9,
        previousToken = Some (mkToken IntegerConstToken ''3'' 1 8 9),
        lexer = sconst (mkToken EofToken [] 1 9 9)\<rparr>) \<and>
   expression 7
     \<lparr>currentToken = mkToken IntegerConstToken ''1'' 1 0 1, previousToken = None,
      lexer = mkToken MultiplicationToken ''*'' 1 2 3 ## mkToken IntegerConstToken ''2'' 1 4 5 ##
        mkToken EqualsToken ''='' 1 6 7 ## mkToken IntegerConstToken ''3'' 1 8 9 ##
        mkToken EofToken [] 1 9 9 ## sconst (mkToken EofToken [] 1 9 9)\<rparr> =
   ok (MultiplicationAST (at 1 2 3) (IntegerConstantAST (at 1 0 1) ''1'')
         (EqualsAST (at 1 6 7) (IntegerConstantAST (at 1 4 5) ''2'')
            (IntegerConstantAST (at 1 8 9) ''3'')),
       \<lparr>currentToken = mkToken EofToken [] 1 9 9,
        previousToken = Some (mkToken IntegerConstToken ''3'' 1 8 9),
        lexer = sconst (mkToken EofToken [] 1 9 9)\<rparr>)"
proof -
  let ?one = "mkToken IntegerConstToken ''1'' 1 0 1"
  let ?plus = "mkToken PlusToken ''+'' 1 2 3"
  let ?times = "mkToken MultiplicationToken ''*'' 1 2 3"
  let ?two = "mkToken IntegerConstToken ''2'' 1 4 5"
  let ?times' = "mkToken MultiplicationToken ''*'' 1 6 7"
  let ?equals = "mkToken EqualsToken ''='' 1 6 7"
  let ?three = "mkToken IntegerConstToken ''3'' 1 8 9"
  let ?eof = "mkToken EofToken [] 1 9 9"
  have kinds: "kind (mkToken k v l c1 c2) = k" for k v l c1 c2
    by (simp add: mkToken_def)
  have atoms: "kind ?one \<in> set atomKinds" "kind ?two \<in> set atomKinds"
    "kind ?three \<in> set atomKinds"
    by (simp_all add: kinds atomKinds_def)
  have plus: "kind ?plus \<in> set expressionOperators"
    "kind ?plus \<notin> set comparisonOperators" "kind ?plus \<notin> set termOperators"
    and times: "kind ?times \<in> set termOperators" "kind ?times \<notin> set comparisonOperators"
    "kind ?times' \<in> set termOperators" "kind ?times' \<notin> set comparisonOperators"
    and equals: "kind ?equals \<in> set comparisonOperators"
    and eof: "kind ?eof \<notin> set comparisonOperators" "kind ?eof \<notin> set termOperators"
    "kind ?eof \<notin> set expressionOperators"
    by (simp_all add: kinds expressionOperators_def termOperators_def comparisonOperators_def)
  have three: "(3::nat) \<le> 3" and two: "(2::nat) \<le> 3" by simp_all
  have stop: "kind (currentToken \<lparr>currentToken = ?eof, previousToken = Some ?three,
              lexer = sconst ?eof\<rparr>) \<notin> set expressionOperators"
    "kind (currentToken \<lparr>currentToken = ?eof, previousToken = Some ?three,
              lexer = sconst ?eof\<rparr>) \<notin> set termOperators"
    using eof(2,3) by simp_all

  have a1: "term' 3 \<lparr>currentToken = ?one, previousToken = None,
              lexer = ?plus ## ?two ## ?times' ## ?three ## ?eof ## sconst ?eof\<rparr> =
           ok (atomAST ?one, \<lparr>currentToken = ?plus, previousToken = Some ?one,
              lexer = ?two ## ?times' ## ?three ## ?eof ## sconst ?eof\<rparr>)"
    using atoms(1) plus(2,3) three by (rule term_atom)
  have b1: "comparison 3 \<lparr>currentToken = ?two, previousToken = Some ?plus,
              lexer = ?times' ## ?three ## ?eof ## sconst ?eof\<rparr> =
           ok (atomAST ?two, \<lparr>currentToken = ?times', previousToken = Some ?two,
              lexer = ?three ## ?eof ## sconst ?eof\<rparr>)"
    using atoms(2) times(4) two by (rule comparison_atom)
  have c1: "term' 3 \<lparr>currentToken = ?three, previousToken = Some ?times',
              lexer = ?eof ## sconst ?eof\<rparr> =
           ok (atomAST ?three, \<lparr>currentToken = ?eof, previousToken = Some ?three,
              lexer = sconst ?eof\<rparr>)"
    using atoms(3) eof(1,2) three by (rule term_atom)
  have k1: "(3::nat) + 3 \<le> 6" by simp
  have h1: "term' 3 \<lparr>currentToken = ?one, previousToken = None,
              lexer = ?plus ## ?two ## ?times' ## ?three ## ?eof ## sconst ?eof\<rparr> =
           ok (atomAST ?one, \<lparr>currentToken = ?plus, previousToken = Some ?one,
              lexer = ?two ## ?times' ## ?three ## ?eof ## sconst ?eof\<rparr>) \<and>
    kind ?plus \<in> set expressionOperators \<and>
    comparison 3 \<lparr>currentToken = ?two, previousToken = Some ?plus,
              lexer = ?times' ## ?three ## ?eof ## sconst ?eof\<rparr> =
           ok (atomAST ?two, \<lparr>currentToken = ?times', previousToken = Some ?two,
              lexer = ?three ## ?eof ## sconst ?eof\<rparr>) \<and>
    kind ?times' \<in> set termOperators \<and>
    term' 3 \<lparr>currentToken = ?three, previousToken = Some ?times',
              lexer = ?eof ## sconst ?eof\<rparr> =
           ok (atomAST ?three, \<lparr>currentToken = ?eof, previousToken = Some ?three,
              lexer = sconst ?eof\<rparr>) \<and>
    kind (currentToken \<lparr>currentToken = ?eof, previousToken = Some ?three,
              lexer = sconst ?eof\<rparr>) \<notin> set expressionOperators \<and> (3::nat) + 3 \<le> 6"
    using a1 plus(1) b1 times(3) c1 stop(1) k1 by (intro conjI)
  from tighter_rule_binds_inside_looser [THEN conjunct1, THEN mp, OF h1]
  have first: "expression 6 \<lparr>currentToken = ?one, previousToken = None,
              lexer = ?plus ## ?two ## ?times' ## ?three ## ?eof ## sconst ?eof\<rparr> =
        ok (binaryNode ?plus (atomAST ?one) (binaryNode ?times' (atomAST ?two) (atomAST ?three)),
            \<lparr>currentToken = ?eof, previousToken = Some ?three, lexer = sconst ?eof\<rparr>)" .

  have a2: "comparison 3 \<lparr>currentToken = ?one, previousToken = None,
              lexer = ?times ## ?two ## ?equals ## ?three ## ?eof ## sconst ?eof\<rparr> =
           ok (atomAST ?one, \<lparr>currentToken = ?times, previousToken = Some ?one,
              lexer = ?two ## ?equals ## ?three ## ?eof ## sconst ?eof\<rparr>)"
    using atoms(1) times(2) two by (rule comparison_atom)
  have "factor (Suc 2) \<lparr>currentToken = ?two, previousToken = Some ?times,
              lexer = ?equals ## ?three ## ?eof ## sconst ?eof\<rparr> =
           ok (atomAST ?two, \<lparr>currentToken = ?equals, previousToken = Some ?two,
              lexer = ?three ## ?eof ## sconst ?eof\<rparr>)"
    using atoms(2) by (rule factor_atom)
  then have b2: "factor 3 \<lparr>currentToken = ?two, previousToken = Some ?times,
              lexer = ?equals ## ?three ## ?eof ## sconst ?eof\<rparr> =
           ok (atomAST ?two, \<lparr>currentToken = ?equals, previousToken = Some ?two,
              lexer = ?three ## ?eof ## sconst ?eof\<rparr>)"
    by (simp only: eval_nat_numeral)
  have c2: "comparison 3 \<lparr>currentToken = ?three, previousToken = Some ?equals,
              lexer = ?eof ## sconst ?eof\<rparr> =
           ok (atomAST ?three, \<lparr>currentToken = ?eof, previousToken = Some ?three,
              lexer = sconst ?eof\<rparr>)"
    using atoms(3) eof(1) two by (rule comparison_atom)
  have k2: "(3::nat) + 4 \<le> 7" by simp
  have h2: "comparison 3 \<lparr>currentToken = ?one, previousToken = None,
              lexer = ?times ## ?two ## ?equals ## ?three ## ?eof ## sconst ?eof\<rparr> =
           ok (atomAST ?one, \<lparr>currentToken = ?times, previousToken = Some ?one,
              lexer = ?two ## ?equals ## ?three ## ?eof ## sconst ?eof\<rparr>) \<and>
    kind ?times \<in> set termOperators \<and>
    factor 3 \<lparr>currentToken = ?two, previousToken = Some ?times,
              lexer = ?equals ## ?three ## ?eof ## sconst ?eof\<rparr> =
           ok (atomAST ?two, \<lparr>currentToken = ?equals, previousToken = Some ?two,
              lexer = ?three ## ?eof ## sconst ?eof\<rparr>) \<and>
    kind ?equals \<in> set comparisonOperators \<and>
    comparison 3 \<lparr>currentToken = ?three, previousToken = Some ?equals,
              lexer = ?eof ## sconst ?eof\<rparr> =
           ok (atomAST ?three, \<lparr>currentToken = ?eof, previousToken = Some ?three,
              lexer = sconst ?eof\<rparr>) \<and>
    kind (currentToken \<lparr>currentToken = ?eof, previousToken = Some ?three,
              lexer = sconst ?eof\<rparr>) \<notin> set termOperators \<and>
    kind (currentToken \<lparr>currentToken = ?eof, previousToken = Some ?three,
              lexer = sconst ?eof\<rparr>) \<notin> set expressionOperators \<and> (3::nat) + 4 \<le> 7"
    using a2 times(1) b2 equals c2 stop(2) stop(1) k2 by (intro conjI)
  from tighter_rule_binds_inside_looser
    [THEN conjunct2, THEN conjunct2, THEN conjunct1, THEN mp, OF h2]
  have "expression 7 \<lparr>currentToken = ?one, previousToken = None,
              lexer = ?times ## ?two ## ?equals ## ?three ## ?eof ## sconst ?eof\<rparr> =
        ok (binaryNode ?times (atomAST ?one) (binaryNode ?equals (atomAST ?two) (atomAST ?three)),
            \<lparr>currentToken = ?eof, previousToken = Some ?three, lexer = sconst ?eof\<rparr>)" .
  from first this show ?thesis
    by (simp add: binaryNode_def atomAST_def kinds) (simp add: mkToken_def at_def positionOf_def)
qed

end
